theory Spec2Isabelle
  imports Complex_Main "HOL-Library.Sublist"
begin

text \<open>
  A model of the React hook \<open>useBluetoothService\<close> of the Noti-Fin application
  (\<open>src/unnamed/part_000\<close>): a registry of simulated Bluetooth speakers, one logical
  connection, a phrase dictionary and a text-to-speech engine behind \<open>ActiveTts\<close>. The
  hook's state cells form a record, every exported operation is a function on that
  record, and what lies outside the repository (random numbers, lower-casing, the
  engine, the user's taps) is an argument of the operation it affects. Line numbers in
  the text refer to the source file.
\<close>

section \<open>JavaScript strings\<close>

text \<open>
  A JavaScript string is a sequence of UTF-16 code units. Every string literal of the
  service lies in the Basic Multilingual Plane, so one code unit is one character there.
  \<open>str\<close> turns an ASCII literal into its code units.
\<close>

type_synonym jsstring = "nat list"

definition str :: "string \<Rightarrow> jsstring" where
  "str s = map of_char s"

text \<open>
  \<open>String.prototype.includes\<close>: the argument occurs as a contiguous run of code units.
\<close>

fun js_includes :: "jsstring \<Rightarrow> jsstring \<Rightarrow> bool" where
  "js_includes [] t = (t = [])"
| "js_includes (c # s) t = (prefix t (c # s) \<or> js_includes s t)"

text \<open>
  \<open>String.prototype.charAt\<close>: the one-character string at an index, the empty string
  out of range.
\<close>

definition charAt :: "jsstring \<Rightarrow> int \<Rightarrow> jsstring" where
  "charAt s i = (if 0 \<le> i \<and> i < int (length s) then [s ! nat i] else [])"

text \<open>
  \<open>String.prototype.toLowerCase\<close> follows the Unicode case tables, which are not part of
  the repository. Every operation that lower-cases takes the function as its first
  argument \<open>lc\<close>; \<open>asciiLower\<close>, which agrees with JavaScript on ASCII strings, is used
  where a concrete input is evaluated.
\<close>

definition asciiLower :: "jsstring \<Rightarrow> jsstring" where
  "asciiLower s = map (\<lambda>c. if 65 \<le> c \<and> c \<le> 90 then c + 32 else c) s"

section \<open>Random numbers\<close>

text \<open>
  \<open>Math.random()\<close> yields an unknown number in \<open>[0, 1)\<close> on every call. The source of
  randomness is the sequence of the numbers still to come; a call takes the first and
  leaves the rest. Rounding of floating-point products is not modelled.
\<close>

type_synonym rng = "nat \<Rightarrow> real"

definition Math_random :: "rng \<Rightarrow> real \<times> rng" where
  "Math_random g = (g 0, \<lambda>n. g (Suc n))"

definition unitInterval :: "rng \<Rightarrow> bool" where
  "unitInterval g = (\<forall>n. 0 \<le> g n \<and> g n < 1)"

text \<open>The source that yields the same number on every call.\<close>

definition constant_rng :: "real \<Rightarrow> rng" where
  "constant_rng x = (\<lambda>n. x)"

section \<open>Devices\<close>

text \<open>
  \<open>interface BluetoothDevice\<close> (lines 54-59): the optional fields are options. The fields \<open>id\<close> and
  \<open>connected\<close> carry a prime, the plain names being constants of the library.
\<close>

record BluetoothDevice =
  name :: "jsstring option"
  id' :: jsstring
  address :: "jsstring option"
  connected' :: "bool option"

definition isConnected :: "BluetoothDevice \<Rightarrow> bool" where
  "isConnected d = (connected' d = Some True)"

definition MOCK_DEVICES :: "BluetoothDevice list" where
  "MOCK_DEVICES =
    [\<lparr>name = Some (str ''Generic Bluetooth Speaker''), id' = str ''00:11:22:33:44:55'',
      address = Some (str ''00:11:22:33:44:55''), connected' = Some False\<rparr>,
     \<lparr>name = Some (str ''WYS-2301BT''), id' = str ''00:22:33:44:55:66'',
      address = Some (str ''00:22:33:44:55:66''), connected' = Some False\<rparr>,
     \<lparr>name = Some (str ''Portable Speaker''), id' = str ''00:33:44:55:66:77'',
      address = Some (str ''00:33:44:55:66:77''), connected' = Some False\<rparr>]"

section \<open>Voices and the speech engine\<close>

text \<open>
  \<open>interface Voice\<close>, with the two fields the service reads or writes. An element of the
  array an engine hands back may be \<open>null\<close> or \<open>undefined\<close> (the source guards against
  it), so an array of voices is a list of options.
\<close>

record Voice =
  language :: "jsstring option"
  voiceName :: "jsstring option"

text \<open>
  What \<open>ActiveTts.voices()\<close> may resolve to: a falsy value, an array, or a truthy value
  that is no array (the source checks \<open>Array.isArray\<close> in \<open>initTts\<close>).
\<close>

datatype voices_value = Falsy | VoiceArray "Voice option list" | NotAnArray

text \<open>
  A promise of the engine, seen from the caller: it resolves or rejects some
  milliseconds after the call, the call throws before a promise exists, or the promise
  never settles.
\<close>

datatype 'a promise = Resolves nat 'a | Rejects nat | Throws | Never

text \<open>\<open>ActiveTts\<close> is chosen once, when the module is loaded.\<close>

datatype tts_impl = Tts | MockTts

text \<open>Calls made on \<open>ActiveTts\<close>, in the order they are made.\<close>

datatype tts_call = Speak jsstring | Stop | Voices

section \<open>The state of the hook\<close>

text \<open>The dialogs raised through \<open>Alert.alert\<close>, named by their titles.\<close>

datatype alert =
    SystemConnectionRequired BluetoothDevice
  | DeviceDisconnected
  | CheckConnectionInSettings
  | NoDevicesFound
  | InputError
  | PhraseAdded jsstring jsstring
  | NoDeviceConnected
  | TtsError
  | SystemBluetoothSettings
  | ErrorOpeningSettings

text \<open>
  The first six fields are the \<open>useState\<close> cells of \<open>useBluetoothService\<close>;
  \<open>vietnamesePhrases\<close> is the \<open>useRef\<close> cell, an object whose entries are kept in the
  order \<open>Object.entries\<close> lists them. \<open>alerts\<close> and \<open>ttsCalls\<close> record the dialogs
  raised and the engine calls made. The last four fields account for what is still to
  happen: the \<open>speak\<close> calls suspended at \<open>await ActiveTts.stop()\<close> (with their
  messages), the number of \<open>speak\<close> calls suspended at \<open>await safeSpeak(...)\<close>, the
  number of one-second timers not yet fired, and whether the native engine has
  announced the start of an utterance and not yet its end.
\<close>

record hook_state =
  devices :: "BluetoothDevice list"
  connectedDevice :: "BluetoothDevice option"
  isEnabled :: bool
  isScanning :: bool
  isSpeaking :: bool
  availableLanguages :: "jsstring list"
  vietnamesePhrases :: "(jsstring \<times> jsstring) list"
  alerts :: "alert list"
  ttsCalls :: "tts_call list"
  awaitingStop :: "jsstring list"
  awaitingSpeak :: nat
  settleTimers :: nat
  utteranceInProgress :: bool

text \<open>
  React creates the callbacks of the hook anew on every render. A callback reads the
  state variables of the render that created it, and keeps reading those values after an
  \<open>await\<close>; a functional update \<open>setX(prev => ...)\<close> and the \<open>useRef\<close> cell act on the
  live state. An operation that reads a state variable therefore takes two states: \<open>r\<close>,
  the state of the render whose callback is called, and \<open>s\<close>, the live state. A call made
  from the latest render has \<open>r = s\<close>.
\<close>

section \<open>The phrase dictionary\<close>

definition DEFAULT_VIETNAMESE_PHRASES :: "(jsstring \<times> jsstring) list" where
  "DEFAULT_VIETNAMESE_PHRASES =
    [(str ''hello'', str ''Xin ch'' @ [224] @ str ''o''),
     (str ''thank you'', str ''C'' @ [7843] @ str ''m '' @ [417] @ str ''n b'' @ [7841] @ str ''n''),
     (str ''goodbye'', str ''T'' @ [7841] @ str ''m bi'' @ [7879] @ str ''t''),
     (str ''welcome'', str ''Ch'' @ [224] @ str ''o m'' @ [7915] @ str ''ng''),
     (str ''how are you'', str ''B'' @ [7841] @ str ''n kh'' @ [7887] @ str ''e kh'' @ [244] @ str ''ng''),
     (str ''good morning'', str ''Ch'' @ [224] @ str ''o bu'' @ [7893] @ str ''i s'' @ [225] @ str ''ng''),
     (str ''good afternoon'', str ''Ch'' @ [224] @ str ''o bu'' @ [7893] @ str ''i chi'' @ [7873] @ str ''u''),
     (str ''good evening'', str ''Ch'' @ [224] @ str ''o bu'' @ [7893] @ str ''i t'' @ [7889] @ str ''i''),
     (str ''please'', str ''L'' @ [224] @ str ''m '' @ [417] @ str ''n''),
     (str ''sorry'', str ''Xin l'' @ [7895] @ str ''i''),
     (str ''what is your name'', str ''T'' @ [234] @ str ''n b'' @ [7841] @ str ''n l'' @ [224] @ str '' g'' @ [236]),
     (str ''my name is'', str ''T'' @ [234] @ str ''n t'' @ [244] @ str ''i l'' @ [224]),
     (str ''nice to meet you'', str ''R'' @ [7845] @ str ''t vui '' @ [273, 432, 7907] @ str ''c g'' @ [7863] @ str ''p b'' @ [7841] @ str ''n''),
     (str ''payment successful'', str ''Thanh to'' @ [225] @ str ''n th'' @ [224] @ str ''nh c'' @ [244] @ str ''ng''),
     (str ''payment received'', [272, 227] @ str '' nh'' @ [7853] @ str ''n thanh to'' @ [225] @ str ''n'')]"

text \<open>
  The dictionary is a JavaScript object, and \<open>Object.entries\<close> lists the keys of an
  object in property order: first the keys that are array indices (the canonical decimal
  numerals of \<open>0 .. 2^32 - 2\<close>) in ascending numeric order, then the other keys in the
  order they were first created. Writing an existing key replaces its value where it
  stands. \<open>setProperty\<close> is the write \<open>{...object, [k]: v}\<close> on the list of entries.
\<close>

definition isDigit :: "nat \<Rightarrow> bool" where
  "isDigit c = (48 \<le> c \<and> c \<le> 57)"

definition decimalValue :: "jsstring \<Rightarrow> nat" where
  "decimalValue k = foldl (\<lambda>n c. 10 * n + (c - 48)) 0 k"

definition isArrayIndex :: "jsstring \<Rightarrow> bool" where
  "isArrayIndex k =
    (k \<noteq> [] \<and> list_all isDigit k \<and> (k = [48] \<or> take 1 k \<noteq> [48]) \<and> decimalValue k < 4294967295)"

fun insertArrayIndex ::
  "jsstring \<Rightarrow> jsstring \<Rightarrow> (jsstring \<times> jsstring) list \<Rightarrow> (jsstring \<times> jsstring) list" where
  "insertArrayIndex k v [] = [(k, v)]"
| "insertArrayIndex k v (e # es) =
    (if isArrayIndex (fst e) \<and> decimalValue (fst e) < decimalValue k
     then e # insertArrayIndex k v es
     else (k, v) # e # es)"

definition setProperty ::
  "jsstring \<Rightarrow> jsstring \<Rightarrow> (jsstring \<times> jsstring) list \<Rightarrow> (jsstring \<times> jsstring) list" where
  "setProperty k v es =
    (if k \<in> set (map fst es) then map (\<lambda>e. if fst e = k then (fst e, v) else e) es
     else if isArrayIndex k then insertArrayIndex k v es
     else es @ [(k, v)])"

text \<open>
  The write as the specification describes the dictionary: keys in insertion order, a
  write to an existing key replacing its value where it stands. It is compared with
  \<open>setProperty\<close> below.
\<close>

definition spec_insertionOrderWrite ::
  "jsstring \<Rightarrow> jsstring \<Rightarrow> (jsstring \<times> jsstring) list \<Rightarrow> (jsstring \<times> jsstring) list" where
  "spec_insertionOrderWrite k v es =
    (if k \<in> set (map fst es) then map (\<lambda>e. if fst e = k then (fst e, v) else e) es
     else es @ [(k, v)])"

text \<open>
  A list of keys is in property order: the array indices come first, in ascending
  numeric order, and no array index follows a key that is none.
\<close>

fun propertyOrdered :: "jsstring list \<Rightarrow> bool" where
  "propertyOrdered [] = True"
| "propertyOrdered (k # ks) =
    (if isArrayIndex k
     then list_all (\<lambda>k'. isArrayIndex k' \<longrightarrow> decimalValue k \<le> decimalValue k') ks
          \<and> propertyOrdered ks
     else list_all (\<lambda>k'. \<not> isArrayIndex k') ks)"

text \<open>
  \<open>setCustomVietnamesePhrase\<close> (lines 570-593). Only the empty string is falsy, so \<open>!english\<close> holds
  exactly for \<open>english = ""\<close>.
\<close>

definition setCustomVietnamesePhrase ::
  "(jsstring \<Rightarrow> jsstring) \<Rightarrow> jsstring \<Rightarrow> jsstring \<Rightarrow> hook_state \<Rightarrow> hook_state" where
  "setCustomVietnamesePhrase lc english vietnamese s =
    (if english = [] \<or> vietnamese = [] then s\<lparr>alerts := alerts s @ [InputError]\<rparr>
     else s\<lparr>vietnamesePhrases := setProperty (lc english) vietnamese (vietnamesePhrases s),
            alerts := alerts s @ [PhraseAdded english vietnamese]\<rparr>)"

text \<open>
  The translation step of \<open>speak\<close> (lines 616-632): the loop over \<open>Object.entries\<close> stops at the first
  key that the lower-cased message includes; without a match the message is spoken as
  it is.
\<close>

fun firstMatch :: "jsstring \<Rightarrow> (jsstring \<times> jsstring) list \<Rightarrow> jsstring option" where
  "firstMatch lowerMsg [] = None"
| "firstMatch lowerMsg ((english, vietnamese) # rest) =
    (if js_includes lowerMsg english then Some vietnamese else firstMatch lowerMsg rest)"

definition textToSpeak ::
  "(jsstring \<Rightarrow> jsstring) \<Rightarrow> (jsstring \<times> jsstring) list \<Rightarrow> jsstring \<Rightarrow> jsstring" where
  "textToSpeak lc phrases message =
    (case firstMatch (lc message) phrases of None \<Rightarrow> message | Some vietnamese \<Rightarrow> vietnamese)"

text \<open>The state of the first render: the initial values of the cells.\<close>

definition initial_state :: hook_state where
  "initial_state =
    \<lparr>devices = [], connectedDevice = None, isEnabled = True, isScanning = False,
     isSpeaking = False, availableLanguages = [],
     vietnamesePhrases = DEFAULT_VIETNAMESE_PHRASES,
     alerts = [], ttsCalls = [], awaitingStop = [], awaitingSpeak = 0, settleTimers = 0,
     utteranceInProgress = False\<rparr>"

section \<open>Discovery\<close>

text \<open>
  \<open>generateRandomId\<close> (lines 354-365): six sections of two random hexadecimal digits, joined by colons.
  Each digit is one call of \<open>Math.random\<close>.
\<close>

definition hexChars :: jsstring where
  "hexChars = str ''0123456789ABCDEF''"

definition randomHexChar :: "rng \<Rightarrow> jsstring \<times> rng" where
  "randomHexChar g =
    (case Math_random g of (x, g') \<Rightarrow> (charAt hexChars \<lfloor>x * real (length hexChars)\<rfloor>, g'))"

definition randomSection :: "rng \<Rightarrow> jsstring \<times> rng" where
  "randomSection g =
    (case randomHexChar g of (a, g1) \<Rightarrow>
     case randomHexChar g1 of (b, g2) \<Rightarrow> (a @ b, g2))"

function generateRandomId_loop :: "nat \<Rightarrow> jsstring \<Rightarrow> rng \<Rightarrow> jsstring \<times> rng" where
  "generateRandomId_loop i result g =
    (if i < 6
     then (case randomSection g of (section, g') \<Rightarrow>
             generateRandomId_loop (i + 1) (result @ (if i > 0 then str '':'' else []) @ section) g')
     else (result, g))"
  by pat_completeness auto
termination
  by (relation "measure (\<lambda>(i, result, g). 6 - i)") auto

definition generateRandomId :: "rng \<Rightarrow> jsstring \<times> rng" where
  "generateRandomId g = generateRandomId_loop 0 [] g"

text \<open>
  The four candidates of \<open>scanForDevices\<close>. The array literal is evaluated in full
  before any candidate is chosen: eight identifiers are generated, in source order.
\<close>

definition randomDevice :: "jsstring \<Rightarrow> rng \<Rightarrow> BluetoothDevice \<times> rng" where
  "randomDevice n g =
    (case generateRandomId g of (i, g1) \<Rightarrow>
     case generateRandomId g1 of (a, g2) \<Rightarrow>
       (\<lparr>name = Some n, id' = i, address = Some a, connected' = Some False\<rparr>, g2))"

definition additionalDevices :: "rng \<Rightarrow> BluetoothDevice list \<times> rng" where
  "additionalDevices g =
    (case randomDevice (str ''JBL Flip'') g of (d1, g1) \<Rightarrow>
     case randomDevice (str ''Bose SoundLink'') g1 of (d2, g2) \<Rightarrow>
     case randomDevice (str ''Sony SRS-XB12'') g2 of (d3, g3) \<Rightarrow>
     case randomDevice (str ''Anker Soundcore'') g3 of (d4, g4) \<Rightarrow>
       ([d1, d2, d3, d4], g4))"

text \<open>
  \<open>scanForDevices\<close> (lines 289-351), run to its end: the list it builds replaces the registry, and the
  scanning flag, raised at the start, is lowered in the \<open>finally\<close> block. The loop
  pushes \<open>additionalDevices[i]\<close> for \<open>i < numToAdd\<close> where that element exists. Nothing in
  the \<open>try\<close> block can throw, so the \<open>catch\<close> block is not a branch of the model.
\<close>

definition randomDevices :: "rng \<Rightarrow> BluetoothDevice list \<times> rng" where
  "randomDevices g =
    (case Math_random g of (x, g1) \<Rightarrow>
     if x > 0.5
     then (case additionalDevices g1 of (additional, g2) \<Rightarrow>
           case Math_random g2 of (y, g3) \<Rightarrow>
             (let numToAdd = \<lfloor>y * 3\<rfloor> + 1
              in (MOCK_DEVICES @
                    map (\<lambda>i. additional ! i)
                      (filter (\<lambda>i. i < length additional) [0..<nat numToAdd]), g3)))
     else (MOCK_DEVICES, g1))"

definition scanForDevices :: "rng \<Rightarrow> hook_state \<Rightarrow> hook_state \<times> rng" where
  "scanForDevices g s =
    (case randomDevices g of (found, g') \<Rightarrow>
       (s\<lparr>isScanning := True\<rparr>\<lparr>devices := found\<rparr>\<lparr>isScanning := False\<rparr>, g'))"

text \<open>
  What the identifiers of a scan depend on. \<open>drop_rng p g\<close> is the source \<open>g\<close> after
  \<open>p\<close> calls; \<open>hexDigit x\<close> is the index \<open>Math.floor(x * hexChars.length)\<close> that
  \<open>generateRandomId\<close> computes from a random number; \<open>idDigits g\<close> are the twelve
  indices it computes from the next twelve numbers of \<open>g\<close>. \<open>scanForDevices\<close> draws
  one number for the decision to append, then twenty-four for every candidate (twelve
  for the identifier, twelve for the address), then one for the number of devices:
  \<open>appendedDigits g n\<close> are the digits of the identifiers of the first \<open>n\<close> candidates,
  and \<open>baselineDigits\<close> are the digits that spell the three baseline identifiers.
  \<open>digits_rng ds\<close> is a source that yields the digits \<open>ds\<close>.
\<close>

definition drop_rng :: "nat \<Rightarrow> rng \<Rightarrow> rng" where
  "drop_rng p g = (\<lambda>n. g (n + p))"

definition hexDigit :: "real \<Rightarrow> nat" where
  "hexDigit x = nat \<lfloor>x * 16\<rfloor>"

definition idDigits :: "rng \<Rightarrow> nat list" where
  "idDigits g =
    [hexDigit (g 0), hexDigit (g 1), hexDigit (g 2), hexDigit (g 3), hexDigit (g 4), hexDigit (g 5),
     hexDigit (g 6), hexDigit (g 7), hexDigit (g 8), hexDigit (g 9), hexDigit (g 10), hexDigit (g 11)]"

definition appendedDigits :: "rng \<Rightarrow> nat \<Rightarrow> nat list list" where
  "appendedDigits g n = map (\<lambda>k. idDigits (drop_rng (1 + 24 * k) g)) [0..<n]"

definition baselineDigits :: "nat list list" where
  "baselineDigits =
    [[0, 0, 1, 1, 2, 2, 3, 3, 4, 4, 5, 5],
     [0, 0, 2, 2, 3, 3, 4, 4, 5, 5, 6, 6],
     [0, 0, 3, 3, 4, 4, 5, 5, 6, 6, 7, 7]]"

definition digits_rng :: "nat list \<Rightarrow> rng" where
  "digits_rng ds = (\<lambda>n. if n < length ds then real (ds ! n) / 16 else 0)"

text \<open>
  A source for which a scan appends three devices with the identifiers
  \<open>AA:AA:AA:AA:AA:AA\<close>, \<open>BB:BB:BB:BB:BB:BB\<close> and \<open>CC:CC:CC:CC:CC:CC\<close>.
\<close>

definition example_rng :: rng where
  "example_rng n = (if n = 0 \<or> n = 97 then 3/4 else real ((n div 24) mod 3 + 10) / 16)"

section \<open>Connection\<close>

text \<open>
  \<open>connectToDevice\<close> (lines 368-400) raises the dialog "System Connection Required" and returns
  \<open>true\<close> at once; it changes no state cell. The connection is recorded by the
  \<open>onPress\<close> handler of the dialog's OK button, \<open>connectToDevice_onPressOK\<close>, which
  runs when the user taps OK.
\<close>

definition connectToDevice :: "BluetoothDevice \<Rightarrow> hook_state \<Rightarrow> bool \<times> hook_state" where
  "connectToDevice device s = (True, s\<lparr>alerts := alerts s @ [SystemConnectionRequired device]\<rparr>)"

definition connectToDevice_onPressOK :: "BluetoothDevice \<Rightarrow> hook_state \<Rightarrow> hook_state" where
  "connectToDevice_onPressOK device s =
    s\<lparr>connectedDevice := Some (device\<lparr>connected' := Some True\<rparr>),
      devices := map (\<lambda>d. if id' d = id' device then d\<lparr>connected' := Some True\<rparr> else d) (devices s)\<rparr>"

text \<open>
  \<open>openBluetoothSettings\<close> asks the platform to open its settings screen; the argument
  tells whether that request throws.
\<close>

definition openBluetoothSettings :: "bool \<Rightarrow> hook_state \<Rightarrow> hook_state" where
  "openBluetoothSettings linkingThrows s =
    s\<lparr>alerts := alerts s @ [if linkingThrows then ErrorOpeningSettings else SystemBluetoothSettings]\<rparr>"

text \<open>
  \<open>disconnectDevice\<close> (lines 403-416) returns at once when the render has no connected
  device; otherwise it empties the cell and clears every mark of the registry.
\<close>

definition disconnectDevice :: "hook_state \<Rightarrow> hook_state \<Rightarrow> hook_state" where
  "disconnectDevice r s =
    (if connectedDevice r = None then s
     else s\<lparr>connectedDevice := None,
            devices := map (\<lambda>d. d\<lparr>connected' := Some False\<rparr>) (devices s),
            alerts := alerts s @ [DeviceDisconnected]\<rparr>)"

definition checkSystemConnection :: "hook_state \<Rightarrow> hook_state" where
  "checkSystemConnection s = s\<lparr>alerts := alerts s @ [CheckConnectionInSettings]\<rparr>"

text \<open>
  \<open>forceConnectToDevice\<close> (lines 434-505). The predicate of both \<open>devices.find\<close> calls is
  \<open>matchesQuery\<close>. \<open>devices\<close> is the variable of the calling render, before and after
  \<open>await scanForDevices()\<close>; the scan and the functional update that appends the new
  device act on the live state.
\<close>

definition matchesQuery :: "(jsstring \<Rightarrow> jsstring) \<Rightarrow> jsstring \<Rightarrow> BluetoothDevice \<Rightarrow> bool" where
  "matchesQuery lc deviceNameOrAddress device =
    ((case name device of None \<Rightarrow> False
      | Some n \<Rightarrow> n \<noteq> [] \<and> js_includes (lc n) (lc deviceNameOrAddress))
     \<or> id' device = deviceNameOrAddress
     \<or> address device = Some deviceNameOrAddress)"

text \<open>The placeholder that \<open>forceConnectToDevice\<close> creates for a name nothing matched.\<close>

definition newDevice :: "jsstring \<Rightarrow> rng \<Rightarrow> BluetoothDevice \<times> rng" where
  "newDevice deviceNameOrAddress g =
    (case generateRandomId g of (i, g1) \<Rightarrow>
     case generateRandomId g1 of (a, g2) \<Rightarrow>
       (\<lparr>name = Some deviceNameOrAddress, id' = i, address = Some a, connected' = Some False\<rparr>, g2))"

definition forceConnectToDevice ::
  "(jsstring \<Rightarrow> jsstring) \<Rightarrow> hook_state \<Rightarrow> jsstring \<Rightarrow> rng \<Rightarrow> hook_state \<Rightarrow> bool \<times> hook_state \<times> rng" where
  "forceConnectToDevice lc r deviceNameOrAddress g s =
    (let first = find (matchesQuery lc deviceNameOrAddress) (devices r);
         rescan = (first = None \<and> deviceNameOrAddress \<noteq> []);
         (s1, g1) = (if rescan then scanForDevices g s else (s, g));
         deviceToConnect =
           (if rescan then find (matchesQuery lc deviceNameOrAddress) (devices r) else first)
     in case deviceToConnect of
          None \<Rightarrow>
            if devices r = [] then (False, s1\<lparr>alerts := alerts s1 @ [NoDevicesFound]\<rparr>, g1)
            else if deviceNameOrAddress \<noteq> []
            then (case newDevice deviceNameOrAddress g1 of (device, g2) \<Rightarrow>
                  case connectToDevice device (s1\<lparr>devices := devices s1 @ [device]\<rparr>) of
                    (ok, s2) \<Rightarrow> (ok, s2, g2))
            else (False, s1, g1)
        | Some device \<Rightarrow> (case connectToDevice device s1 of (ok, s2) \<Rightarrow> (ok, s2, g1)))"

section \<open>Languages\<close>

definition fallbackVoice :: Voice where
  "fallbackVoice = \<lparr>language = Some (str ''vi-VN''), voiceName = Some (str ''Vietnamese (Fallback)'')\<rparr>"

definition mockVoice :: Voice where
  "mockVoice = \<lparr>language = Some (str ''vi-VN''), voiceName = Some (str ''Vietnamese (Mock)'')\<rparr>"

text \<open>
  \<open>voices()\<close> of the active engine: \<open>MockTts.voices\<close> resolves at once; the behaviour of
  the native engine is the argument \<open>native\<close>.
\<close>

definition activeVoices :: "tts_impl \<Rightarrow> voices_value promise \<Rightarrow> voices_value promise" where
  "activeVoices tts native =
    (case tts of MockTts \<Rightarrow> Resolves 0 (VoiceArray [Some mockVoice]) | Tts \<Rightarrow> native)"

text \<open>
  The voice query of \<open>initTts\<close> and of \<open>getAvailableLanguages\<close> (the same
  \<open>new Promise\<close> block in both, lines 201-227 and 518-542): a timer of 3000 ms is set, then \<open>voices()\<close> is called.
  The result is the time, in milliseconds after the call, at which the awaited promise
  settles, and the value bound to the variable of voices. A call that throws rejects the
  awaited promise at once and the \<open>catch\<close> block binds the fallback. An engine promise
  that settles before the timer decides the value (\<open>result || []\<close> when it resolves, the
  fallback when it rejects); otherwise the timer does. A promise that would settle at
  the very instant the timer is due is taken to come after the timer, which was
  registered first.
\<close>

definition voicesWithTimeout :: "voices_value promise \<Rightarrow> nat \<times> voices_value" where
  "voicesWithTimeout p =
    (case p of
       Throws \<Rightarrow> (0, VoiceArray [Some fallbackVoice])
     | Resolves t result \<Rightarrow>
         if t < 3000 then (t, case result of Falsy \<Rightarrow> VoiceArray [] | _ \<Rightarrow> result)
         else (3000, VoiceArray [Some fallbackVoice])
     | Rejects t \<Rightarrow>
         if t < 3000 then (t, VoiceArray [Some fallbackVoice])
         else (3000, VoiceArray [Some fallbackVoice])
     | Never \<Rightarrow> (3000, VoiceArray [Some fallbackVoice]))"

text \<open>\<open>[...new Set(xs)]\<close>: the first occurrence of every element, in order.\<close>

fun uniqueInOrder :: "'a list \<Rightarrow> 'a list" where
  "uniqueInOrder [] = []"
| "uniqueInOrder (x # xs) = x # uniqueInOrder (filter (\<lambda>y. y \<noteq> x) xs)"

text \<open>
  \<open>getAvailableLanguages\<close> (lines 508-567). The voices that are not \<open>null\<close> and have a truthy language
  contribute their language. A value that is no array has no \<open>filter\<close> method: the call
  throws and the outer \<open>catch\<close> block answers with the fallback list.
\<close>

definition voiceLanguage :: "Voice option \<Rightarrow> jsstring option" where
  "voiceLanguage voice =
    (case voice of None \<Rightarrow> None
     | Some v \<Rightarrow> (case language v of None \<Rightarrow> None | Some l \<Rightarrow> if l = [] then None else Some l))"

definition getAvailableLanguages ::
  "tts_impl \<Rightarrow> voices_value promise \<Rightarrow> hook_state \<Rightarrow> jsstring list \<times> hook_state" where
  "getAvailableLanguages tts native s =
    (if tts = MockTts
     then (let mockLanguages = [str ''vi-VN'', str ''en-US'']
           in (mockLanguages, s\<lparr>availableLanguages := mockLanguages\<rparr>))
     else (let s1 = s\<lparr>ttsCalls := ttsCalls s @ [Voices]\<rparr>
           in case snd (voicesWithTimeout (activeVoices tts native)) of
                VoiceArray voices \<Rightarrow>
                  (let languages = List.map_filter voiceLanguage voices;
                       uniqueLanguages = uniqueInOrder languages;
                       uniqueLanguages =
                         (if str ''vi-VN'' \<in> set uniqueLanguages then uniqueLanguages
                          else uniqueLanguages @ [str ''vi-VN''])
                   in (uniqueLanguages, s1\<lparr>availableLanguages := uniqueLanguages\<rparr>))
              | _ \<Rightarrow>
                  (let fallback = [str ''vi-VN'', str ''en-US'']
                   in (fallback, s1\<lparr>availableLanguages := fallback\<rparr>))))"

text \<open>
  Of \<open>initTts\<close> the model keeps the voices it detects and the functional update that
  ends it; the configuration calls between the two change no state cell.
\<close>

definition initTts_availableVoices :: "tts_impl \<Rightarrow> voices_value promise \<Rightarrow> nat \<times> voices_value" where
  "initTts_availableVoices tts native = voicesWithTimeout (activeVoices tts native)"

definition initTts_setAvailableLanguages :: "hook_state \<Rightarrow> hook_state" where
  "initTts_setAvailableLanguages s =
    s\<lparr>availableLanguages :=
        (if str ''vi-VN'' \<in> set (availableLanguages s) then availableLanguages s
         else availableLanguages s @ [str ''vi-VN''])\<rparr>"

section \<open>Speaking\<close>

text \<open>
  \<open>speak\<close> (lines 596-660) is an asynchronous function; between two suspensions it runs without
  interruption. \<open>speak\<close> below is the call up to its first suspension,
  \<open>speak_afterStop\<close> the part from the translation to \<open>await safeSpeak(...)\<close>,
  \<open>speak_afterSafeSpeak\<close> the part after that promise has settled, and
  \<open>speak_timeout\<close> the callback of the timer of 1000 ms.

  The arguments \<open>stopThrows\<close> and \<open>speakThrows\<close> tell whether the native
  \<open>stop()\<close> and \<open>speak(text)\<close> throw instead of handing back a promise; the functions of
  \<open>MockTts\<close> never throw. A \<open>stop()\<close> that throws is caught and the call goes on at once.
  A \<open>speak(text)\<close> that throws makes \<open>safeSpeak\<close> reject, and the \<open>catch\<close> block of
  \<open>speak\<close> lowers the flag and raises "TTS Error".
\<close>

definition speak_afterStop ::
  "(jsstring \<Rightarrow> jsstring) \<Rightarrow> tts_impl \<Rightarrow> bool \<Rightarrow> jsstring \<Rightarrow> hook_state \<Rightarrow> hook_state" where
  "speak_afterStop lc tts speakThrows message s =
    (let text = textToSpeak lc (vietnamesePhrases s) message;
         s1 = s\<lparr>isSpeaking := True, ttsCalls := ttsCalls s @ [Speak text]\<rparr>
     in if tts = Tts \<and> speakThrows
        then s1\<lparr>isSpeaking := False, alerts := alerts s1 @ [TtsError]\<rparr>
        else s1\<lparr>awaitingSpeak := Suc (awaitingSpeak s1)\<rparr>)"

definition speak ::
  "(jsstring \<Rightarrow> jsstring) \<Rightarrow> tts_impl \<Rightarrow> hook_state \<Rightarrow> bool \<Rightarrow> bool \<Rightarrow> jsstring \<Rightarrow>
   hook_state \<Rightarrow> hook_state" where
  "speak lc tts r stopThrows speakThrows message s =
    (if connectedDevice r = None then s\<lparr>alerts := alerts s @ [NoDeviceConnected]\<rparr>
     else if isSpeaking r
     then (let s1 = s\<lparr>ttsCalls := ttsCalls s @ [Stop]\<rparr>
           in if tts = Tts \<and> stopThrows then speak_afterStop lc tts speakThrows message s1
              else s1\<lparr>awaitingStop := awaitingStop s1 @ [message]\<rparr>)
     else speak_afterStop lc tts speakThrows message s)"

definition speak_afterSafeSpeak :: "bool \<Rightarrow> hook_state \<Rightarrow> hook_state" where
  "speak_afterSafeSpeak resolved s =
    (if resolved
     then s\<lparr>awaitingSpeak := awaitingSpeak s - 1, settleTimers := Suc (settleTimers s)\<rparr>
     else s\<lparr>awaitingSpeak := awaitingSpeak s - 1, isSpeaking := False,
            alerts := alerts s @ [TtsError]\<rparr>)"

definition speak_timeout :: "hook_state \<Rightarrow> hook_state" where
  "speak_timeout s = s\<lparr>settleTimers := settleTimers s - 1, isSpeaking := False\<rparr>"

text \<open>
  The listeners that \<open>initTts\<close> registers on the native engine (lines 186-198): \<open>tts-start\<close> raises the
  flag; \<open>tts-finish\<close>, \<open>tts-cancel\<close> and \<open>tts-error\<close> lower it.
\<close>

definition onTtsStart :: "hook_state \<Rightarrow> hook_state" where
  "onTtsStart s = s\<lparr>isSpeaking := True, utteranceInProgress := True\<rparr>"

definition onTtsEnd :: "hook_state \<Rightarrow> hook_state" where
  "onTtsEnd s = s\<lparr>isSpeaking := False, utteranceInProgress := False\<rparr>"

section \<open>Runs of the service\<close>

text \<open>
  What can happen to a mounted hook, one event at a time: the effect of mounting, a call
  of an operation, a tap on the OK button of a confirmation dialog, the settling of an
  awaited promise, a timer, an event of the native engine. \<open>scanForDevices\<close> and
  \<open>forceConnectToDevice\<close> are taken to run to their end before the next event, as their
  callers await them. The states carried by \<open>DisconnectDevice\<close>,
  \<open>ForceConnectToDevice\<close> and \<open>SpeakCall\<close> are those of the render whose callback is
  called; they need not be the live state.
\<close>

datatype event =
    Mount
  | InitTtsDone
  | ScanForDevices rng
  | ConnectToDevice BluetoothDevice
  | PressOK nat
  | OpenBluetoothSettings bool
  | DisconnectDevice hook_state
  | CheckSystemConnection
  | ForceConnectToDevice hook_state jsstring rng
  | GetAvailableLanguages "voices_value promise"
  | SetCustomVietnamesePhrase jsstring jsstring
  | SpeakCall hook_state bool bool jsstring
  | StopSettled nat bool
  | SafeSpeakSettled bool
  | TimerFired
  | TtsStart
  | TtsEnd

text \<open>
  \<open>fire\<close> is \<open>None\<close> for an event that cannot happen in the state: a tap on a dialog
  that was not raised, the settling of a promise nobody awaits, a timer that was not
  set, a rejection or an event of the native engine when \<open>MockTts\<close> is active.
\<close>

definition fire ::
  "(jsstring \<Rightarrow> jsstring) \<Rightarrow> tts_impl \<Rightarrow> event \<Rightarrow> hook_state \<Rightarrow> hook_state option" where
  "fire lc tts e s =
    (case e of
       Mount \<Rightarrow> Some (s\<lparr>isEnabled := True, devices := MOCK_DEVICES\<rparr>)
     | InitTtsDone \<Rightarrow> Some (initTts_setAvailableLanguages s)
     | ScanForDevices g \<Rightarrow> Some (fst (scanForDevices g s))
     | ConnectToDevice device \<Rightarrow> Some (snd (connectToDevice device s))
     | PressOK i \<Rightarrow>
         (case drop i (alerts s) of
            SystemConnectionRequired device # _ \<Rightarrow> Some (connectToDevice_onPressOK device s)
          | _ \<Rightarrow> None)
     | OpenBluetoothSettings linkingThrows \<Rightarrow> Some (openBluetoothSettings linkingThrows s)
     | DisconnectDevice r \<Rightarrow> Some (disconnectDevice r s)
     | CheckSystemConnection \<Rightarrow> Some (checkSystemConnection s)
     | ForceConnectToDevice r q g \<Rightarrow> Some (fst (snd (forceConnectToDevice lc r q g s)))
     | GetAvailableLanguages native \<Rightarrow> Some (snd (getAvailableLanguages tts native s))
     | SetCustomVietnamesePhrase english vietnamese \<Rightarrow>
         Some (setCustomVietnamesePhrase lc english vietnamese s)
     | SpeakCall r stopThrows speakThrows message \<Rightarrow>
         Some (speak lc tts r stopThrows speakThrows message s)
     | StopSettled i speakThrows \<Rightarrow>
         (if i < length (awaitingStop s)
          then Some (speak_afterStop lc tts speakThrows (awaitingStop s ! i)
                       (s\<lparr>awaitingStop := take i (awaitingStop s) @ drop (Suc i) (awaitingStop s)\<rparr>))
          else None)
     | SafeSpeakSettled resolved \<Rightarrow>
         (if 0 < awaitingSpeak s \<and> (resolved \<or> tts = Tts)
          then Some (speak_afterSafeSpeak resolved s) else None)
     | TimerFired \<Rightarrow> (if 0 < settleTimers s then Some (speak_timeout s) else None)
     | TtsStart \<Rightarrow> (if tts = Tts then Some (onTtsStart s) else None)
     | TtsEnd \<Rightarrow> (if tts = Tts then Some (onTtsEnd s) else None))"

fun run ::
  "(jsstring \<Rightarrow> jsstring) \<Rightarrow> tts_impl \<Rightarrow> event list \<Rightarrow> hook_state \<Rightarrow> hook_state option" where
  "run lc tts [] s = Some s"
| "run lc tts (e # es) s =
    (case fire lc tts e s of None \<Rightarrow> None | Some s' \<Rightarrow> run lc tts es s')"

text \<open>
  Nothing is outstanding: no \<open>speak\<close> call is suspended, no timer is set, and the engine
  is not in the middle of an utterance it has announced.
\<close>

definition settled :: "hook_state \<Rightarrow> bool" where
  "settled s =
    (awaitingStop s = [] \<and> awaitingSpeak s = 0 \<and> settleTimers s = 0 \<and> \<not> utteranceInProgress s)"

section \<open>Invariants and example states\<close>

text \<open>
  Two properties that every run keeps. The first ties the connected-device cell to the
  marks in the registry; the second says that a raised speaking flag is always backed by
  something that will lower it.
\<close>

definition connectionConsistent :: "hook_state \<Rightarrow> bool" where
  "connectionConsistent s =
    (connectedDevice s = None \<longrightarrow> (\<forall>d \<in> set (devices s). \<not> isConnected d))"

definition speakingAccounted :: "hook_state \<Rightarrow> bool" where
  "speakingAccounted s =
    (isSpeaking s \<longrightarrow> 0 < awaitingSpeak s \<or> 0 < settleTimers s \<or> utteranceInProgress s)"

text \<open>
  The state after mounting, and the state after the user has then connected the second
  baseline speaker and confirmed the dialog.
\<close>

definition mounted_state :: hook_state where
  "mounted_state = initial_state\<lparr>isEnabled := True, devices := MOCK_DEVICES\<rparr>"

definition connected_state :: hook_state where
  "connected_state =
    connectToDevice_onPressOK (MOCK_DEVICES ! 1)
      (snd (connectToDevice (MOCK_DEVICES ! 1) mounted_state))"

text \<open>
  Two \<open>speak\<close> calls made from the same render of \<open>connected_state\<close>, one after the
  other; the engine then rejects one utterance and accepts the other, and the timer of
  the accepted one fires.
\<close>

definition spoken_twice_state :: hook_state where
  "spoken_twice_state =
    speak_timeout
      (speak_afterSafeSpeak True
        (speak_afterSafeSpeak False
          (speak asciiLower Tts connected_state False False (str ''goodbye'')
            (speak asciiLower Tts connected_state False False (str ''hello'') connected_state))))"

section \<open>Lists and strings\<close>

lemma constant_rng_apply: "constant_rng x n = x"
  by (simp add: constant_rng_def)

lemma Math_random_constant: "Math_random (constant_rng x) = (x, constant_rng x)"
  by (simp add: Math_random_def constant_rng_def)

lemma unitInterval_constant: "unitInterval (constant_rng x) \<longleftrightarrow> 0 \<le> x \<and> x < 1"
  by (simp add: unitInterval_def constant_rng_def)

lemma js_includes_sublist: "js_includes s t \<longleftrightarrow> sublist t s"
  by (induction s) (auto simp: sublist_Cons_right)

lemma set_uniqueInOrder: "set (uniqueInOrder xs) = set xs"
  by (induction xs rule: uniqueInOrder.induct) auto

lemma push_loop_take:
  "map (\<lambda>i. xs ! i) (filter (\<lambda>i. i < length xs) [0..<n]) = take n xs"
proof (induction n)
  case 0
  then show ?case by simp
next
  case (Suc n)
  show ?case
  proof (cases "n < length xs")
    case True
    with Suc show ?thesis by (simp add: take_Suc_conv_app_nth)
  next
    case False
    with Suc show ?thesis by simp
  qed
qed

section \<open>Discovery never marks a device connected\<close>

lemma MOCK_DEVICES_not_connected: "d \<in> set MOCK_DEVICES \<Longrightarrow> \<not> isConnected d"
  by (auto simp: MOCK_DEVICES_def isConnected_def)

lemma randomDevice_not_connected:
  "randomDevice n g = (d, g') \<Longrightarrow> \<not> isConnected d"
  by (auto simp: randomDevice_def isConnected_def split: prod.splits)

lemma additionalDevices_not_connected:
  "additionalDevices g = (ds, g') \<Longrightarrow> d \<in> set ds \<Longrightarrow> \<not> isConnected d"
  by (auto simp: additionalDevices_def split: prod.splits dest: randomDevice_not_connected)

lemma randomDevices_shape:
  "fst (randomDevices g) =
     (if g 0 > 0.5
      then MOCK_DEVICES @
           take (nat (\<lfloor>snd (additionalDevices (snd (Math_random g))) 0 * 3\<rfloor> + 1))
             (fst (additionalDevices (snd (Math_random g))))
      else MOCK_DEVICES)"
  by (simp add: randomDevices_def Math_random_def Let_def push_loop_take split: prod.splits)

lemma randomDevices_not_connected:
  assumes "d \<in> set (fst (randomDevices g))"
  shows "\<not> isConnected d"
proof -
  have "d \<in> set MOCK_DEVICES \<or> d \<in> set (fst (additionalDevices (snd (Math_random g))))"
    using assms by (auto simp: randomDevices_shape split: if_splits dest: in_set_takeD)
  then show ?thesis
    using MOCK_DEVICES_not_connected additionalDevices_not_connected
    by (metis prod.collapse)
qed

lemma scanForDevices_devices:
  "d \<in> set (devices (fst (scanForDevices g s))) \<Longrightarrow> \<not> isConnected d"
  using randomDevices_not_connected [of d g]
  by (auto simp: scanForDevices_def split: prod.splits)

section \<open>The connection invariant\<close>

lemma scanForDevices_consistent: "connectionConsistent (fst (scanForDevices g s))"
  using scanForDevices_devices by (auto simp: connectionConsistent_def)

lemma forceConnectToDevice_consistent:
  assumes "connectionConsistent s"
  shows "connectionConsistent (fst (snd (forceConnectToDevice lc r q g s)))"
proof -
  obtain s1 g1 where sc: "scanForDevices g s = (s1, g1)" by (cases "scanForDevices g s")
  have c1: "connectionConsistent s1" using scanForDevices_consistent [of g s] sc by simp
  show ?thesis
    using assms c1 sc
    by (auto simp: forceConnectToDevice_def newDevice_def Let_def connectToDevice_def
        connectionConsistent_def isConnected_def split: prod.splits option.splits if_splits)
qed

lemma fire_consistent:
  assumes "connectionConsistent s" "fire lc tts e s = Some s'"
  shows "connectionConsistent s'"
proof (cases e)
  case (ScanForDevices g)
  then show ?thesis using assms scanForDevices_consistent by (auto simp: fire_def)
next
  case (ForceConnectToDevice r q g)
  then show ?thesis using assms forceConnectToDevice_consistent by (auto simp: fire_def)
next
  case Mount
  then show ?thesis using assms MOCK_DEVICES_not_connected
    by (auto simp: fire_def connectionConsistent_def)
next
  case (PressOK i)
  then show ?thesis using assms
    by (auto simp: fire_def connectionConsistent_def connectToDevice_onPressOK_def
        split: list.splits alert.splits)
next
  case (DisconnectDevice r)
  then show ?thesis using assms
    by (auto simp: fire_def connectionConsistent_def disconnectDevice_def isConnected_def
        split: if_splits)
next
  case (GetAvailableLanguages native)
  then show ?thesis using assms
    by (auto simp: fire_def connectionConsistent_def getAvailableLanguages_def Let_def
        split: if_splits voices_value.splits)
next
  case (SpeakCall r a b m)
  then show ?thesis using assms
    by (auto simp: fire_def connectionConsistent_def speak_def speak_afterStop_def Let_def
        split: if_splits)
next
  case (StopSettled i b)
  then show ?thesis using assms
    by (auto simp: fire_def connectionConsistent_def speak_afterStop_def Let_def
        split: if_splits)
qed (use assms in \<open>auto simp: fire_def connectionConsistent_def initTts_setAvailableLanguages_def
      connectToDevice_def openBluetoothSettings_def checkSystemConnection_def
      setCustomVietnamesePhrase_def speak_afterSafeSpeak_def speak_timeout_def onTtsStart_def
      onTtsEnd_def split: if_splits\<close>)

lemma run_consistent:
  "connectionConsistent s \<Longrightarrow> run lc tts evs s = Some s' \<Longrightarrow> connectionConsistent s'"
proof (induction evs arbitrary: s)
  case Nil
  then show ?case by simp
next
  case (Cons e evs)
  then show ?case by (auto split: option.splits dest: fire_consistent)
qed

lemma initial_consistent: "connectionConsistent initial_state"
  by (simp add: connectionConsistent_def initial_state_def)

lemma run_connected_state:
  "run asciiLower Tts [Mount, ConnectToDevice (MOCK_DEVICES ! 1), PressOK 0] initial_state
     = Some connected_state"
  by (simp add: fire_def connected_state_def mounted_state_def connectToDevice_def
      initial_state_def)

section \<open>The speaking-flag invariant\<close>

lemma fire_accounted:
  assumes "speakingAccounted s" "fire lc tts e s = Some s'"
  shows "speakingAccounted s'"
proof (cases e)
  case (ScanForDevices g)
  then show ?thesis using assms
    by (auto simp: fire_def speakingAccounted_def scanForDevices_def split: prod.splits)
next
  case (ForceConnectToDevice r q g)
  then show ?thesis using assms
    by (auto simp: fire_def speakingAccounted_def forceConnectToDevice_def newDevice_def
        scanForDevices_def connectToDevice_def Let_def split: prod.splits option.splits if_splits)
next
  case (PressOK i)
  then show ?thesis using assms
    by (auto simp: fire_def speakingAccounted_def connectToDevice_onPressOK_def
        split: list.splits alert.splits)
next
  case (DisconnectDevice r)
  then show ?thesis using assms
    by (auto simp: fire_def speakingAccounted_def disconnectDevice_def split: if_splits)
next
  case (GetAvailableLanguages native)
  then show ?thesis using assms
    by (auto simp: fire_def speakingAccounted_def getAvailableLanguages_def Let_def
        split: if_splits voices_value.splits)
next
  case (SpeakCall r a b m)
  then show ?thesis using assms
    by (auto simp: fire_def speakingAccounted_def speak_def speak_afterStop_def Let_def
        split: if_splits)
next
  case (StopSettled i b)
  then show ?thesis using assms
    by (auto simp: fire_def speakingAccounted_def speak_afterStop_def Let_def
        split: if_splits)
next
  case (SafeSpeakSettled resolved)
  then show ?thesis using assms
    by (auto simp: fire_def speakingAccounted_def speak_afterSafeSpeak_def split: if_splits)
next
  case TimerFired
  then show ?thesis using assms
    by (auto simp: fire_def speakingAccounted_def speak_timeout_def split: if_splits)
qed (use assms in \<open>auto simp: fire_def speakingAccounted_def initTts_setAvailableLanguages_def
      connectToDevice_def openBluetoothSettings_def checkSystemConnection_def
      setCustomVietnamesePhrase_def onTtsStart_def onTtsEnd_def split: if_splits\<close>)

lemma run_accounted:
  "speakingAccounted s \<Longrightarrow> run lc tts evs s = Some s' \<Longrightarrow> speakingAccounted s'"
proof (induction evs arbitrary: s)
  case Nil
  then show ?case by simp
next
  case (Cons e evs)
  then show ?case by (auto split: option.splits dest: fire_accounted)
qed

section \<open>Connecting\<close>

lemma count_marked:
  "\<forall>d \<in> set ds. \<not> isConnected d \<Longrightarrow>
   length (filter isConnected (map (\<lambda>d. if id' d = i then d\<lparr>connected' := Some True\<rparr> else d) ds))
     = length (filter (\<lambda>d. id' d = i) ds)"
  by (induction ds) (auto simp: isConnected_def)

lemma marked_iff:
  "\<forall>d \<in> set ds. \<not> isConnected d \<Longrightarrow>
   e \<in> set (map (\<lambda>d. if id' d = i then d\<lparr>connected' := Some True\<rparr> else d) ds) \<Longrightarrow>
   isConnected e \<longleftrightarrow> id' e = i"
  by (auto simp: isConnected_def)

lemma onPressOK_devices:
  "devices (connectToDevice_onPressOK device t) =
     map (\<lambda>d. if id' d = id' device then d\<lparr>connected' := Some True\<rparr> else d) (devices t)"
  by (simp add: connectToDevice_onPressOK_def)

text \<open>
  Claim C2, as the code has it. \<open>connectToDevice\<close> returns \<open>true\<close> and raises the
  confirmation dialog without touching the connection. When the user confirms, in any
  state \<open>t\<close>, the connected-device cell holds the device, marked connected (the cell
  holds one device at most); the registry keeps its identifiers, and an entry is marked
  connected afterwards exactly if it has the device's identifier or was marked before.
  If no entry was marked before and exactly one entry has the device's identifier, then
  exactly one entry is marked afterwards, and it is the one with that identifier.
\<close>

theorem connect_marks_device:
  "fst (connectToDevice device s) = True
   \<and> connectedDevice (snd (connectToDevice device s)) = connectedDevice s
   \<and> devices (snd (connectToDevice device s)) = devices s
   \<and> alerts (snd (connectToDevice device s)) = alerts s @ [SystemConnectionRequired device]
   \<and> connectedDevice (connectToDevice_onPressOK device t) = Some (device\<lparr>connected' := Some True\<rparr>)
   \<and> map id' (devices (connectToDevice_onPressOK device t)) = map id' (devices t)
   \<and> (\<forall>i < length (devices t).
         isConnected (devices (connectToDevice_onPressOK device t) ! i)
           \<longleftrightarrow> id' (devices t ! i) = id' device \<or> isConnected (devices t ! i))
   \<and> ((\<forall>d \<in> set (devices t). \<not> isConnected d)
        \<and> length (filter (\<lambda>d. id' d = id' device) (devices t)) = 1
      \<longrightarrow> length (filter isConnected (devices (connectToDevice_onPressOK device t))) = 1
          \<and> (\<forall>d \<in> set (devices (connectToDevice_onPressOK device t)).
                 isConnected d \<longleftrightarrow> id' d = id' device))"
proof (intro conjI impI)
  show "fst (connectToDevice device s) = True"
    by (simp add: connectToDevice_def)
  show "connectedDevice (snd (connectToDevice device s)) = connectedDevice s"
    by (simp add: connectToDevice_def)
  show "devices (snd (connectToDevice device s)) = devices s"
    by (simp add: connectToDevice_def)
  show "alerts (snd (connectToDevice device s)) = alerts s @ [SystemConnectionRequired device]"
    by (simp add: connectToDevice_def)
  show "connectedDevice (connectToDevice_onPressOK device t) = Some (device\<lparr>connected' := Some True\<rparr>)"
    by (simp add: connectToDevice_onPressOK_def)
  show "map id' (devices (connectToDevice_onPressOK device t)) = map id' (devices t)"
    by (simp add: onPressOK_devices comp_def)
  show "\<forall>i < length (devices t).
         isConnected (devices (connectToDevice_onPressOK device t) ! i)
           \<longleftrightarrow> id' (devices t ! i) = id' device \<or> isConnected (devices t ! i)"
    by (simp add: onPressOK_devices isConnected_def)
next
  assume "(\<forall>d \<in> set (devices t). \<not> isConnected d)
        \<and> length (filter (\<lambda>d. id' d = id' device) (devices t)) = 1"
  then show "length (filter isConnected (devices (connectToDevice_onPressOK device t))) = 1"
    using count_marked [of "devices t" "id' device"] unfolding onPressOK_devices by simp
next
  assume "(\<forall>d \<in> set (devices t). \<not> isConnected d)
        \<and> length (filter (\<lambda>d. id' d = id' device) (devices t)) = 1"
  then have none: "\<forall>d \<in> set (devices t). \<not> isConnected d" by simp
  show "\<forall>d \<in> set (devices (connectToDevice_onPressOK device t)).
                 isConnected d \<longleftrightarrow> id' d = id' device"
    unfolding onPressOK_devices using marked_iff [OF none] by blast
qed

text \<open>
  The theorem at the mounted state: no baseline speaker is marked, one of them has the
  identifier of the second, and after the confirmation one device is marked.
\<close>

theorem connect_marks_device_witness:
  "filter isConnected (devices mounted_state) = []
   \<and> length (filter (\<lambda>d. id' d = id' (MOCK_DEVICES ! 1)) (devices mounted_state)) = 1
   \<and> length (filter isConnected (devices (connectToDevice_onPressOK (MOCK_DEVICES ! 1) mounted_state))) = 1
   \<and> connectedDevice (connectToDevice_onPressOK (MOCK_DEVICES ! 1) mounted_state)
       = Some ((MOCK_DEVICES ! 1)\<lparr>connected' := Some True\<rparr>)"
proof -
  have h: "filter isConnected (devices mounted_state) = []
     \<and> length (filter (\<lambda>d. id' d = id' (MOCK_DEVICES ! 1)) (devices mounted_state)) = 1"
    by (simp add: mounted_state_def initial_state_def MOCK_DEVICES_def isConnected_def str_def)
  then have "\<forall>d \<in> set (devices mounted_state). \<not> isConnected d"
    by (simp add: filter_empty_conv)
  with h show ?thesis
    using connect_marks_device [of "MOCK_DEVICES ! 1" mounted_state mounted_state] by blast
qed

text \<open>
  Claim C2 as stated fails: connect the second baseline speaker and confirm, then
  connect the third and confirm. Two entries of the registry are marked connected.
\<close>

theorem connect_two_devices_counterexample:
  "length (filter isConnected
      (devices (connectToDevice_onPressOK (MOCK_DEVICES ! 2)
         (snd (connectToDevice (MOCK_DEVICES ! 2) connected_state))))) = 2"
  by (simp add: connected_state_def mounted_state_def connectToDevice_def
      connectToDevice_onPressOK_def initial_state_def MOCK_DEVICES_def isConnected_def str_def)

section \<open>Disconnecting\<close>

text \<open>
  Claim C3. In every state that a run of the service reaches from the initial state,
  \<open>disconnectDevice\<close>, called from the latest render, leaves the connected-device cell
  empty and no entry of the registry marked connected; a second call changes nothing.
  This covers the states in which no device was connected.
\<close>

theorem disconnect_leaves_none_connected:
  "run lc tts evs initial_state = Some s \<Longrightarrow>
     connectedDevice (disconnectDevice s s) = None
     \<and> (\<forall>d \<in> set (devices (disconnectDevice s s)). \<not> isConnected d)
     \<and> disconnectDevice (disconnectDevice s s) (disconnectDevice s s) = disconnectDevice s s"
proof -
  assume "run lc tts evs initial_state = Some s"
  then have "connectionConsistent s"
    using run_consistent initial_consistent by blast
  then show ?thesis
    by (auto simp: connectionConsistent_def disconnectDevice_def isConnected_def)
qed

text \<open>
  The theorem at the state with a connected speaker and at the initial state, where
  nothing is connected.
\<close>

theorem disconnect_leaves_none_connected_witness:
  "run asciiLower Tts [Mount, ConnectToDevice (MOCK_DEVICES ! 1), PressOK 0] initial_state
     = Some connected_state
   \<and> connectedDevice connected_state \<noteq> None
   \<and> connectedDevice (disconnectDevice connected_state connected_state) = None
   \<and> filter isConnected (devices (disconnectDevice connected_state connected_state)) = []
   \<and> disconnectDevice (disconnectDevice connected_state connected_state)
        (disconnectDevice connected_state connected_state)
       = disconnectDevice connected_state connected_state
   \<and> run asciiLower Tts [] initial_state = Some initial_state
   \<and> connectedDevice initial_state = None
   \<and> disconnectDevice initial_state initial_state = initial_state
   \<and> filter isConnected (devices (disconnectDevice initial_state initial_state)) = []"
proof -
  have c: "connectedDevice connected_state \<noteq> None"
    by (simp add: connected_state_def connectToDevice_onPressOK_def)
  have i: "run asciiLower Tts [] initial_state = Some initial_state" by simp
  have n: "connectedDevice initial_state = None" by (simp add: initial_state_def)
  show ?thesis
    using run_connected_state c i n
      disconnect_leaves_none_connected [OF run_connected_state]
      disconnect_leaves_none_connected [OF i]
    by (simp add: filter_empty_conv disconnectDevice_def)
qed

section \<open>Speaking\<close>

text \<open>
  Claim C4. A \<open>speak\<close> call whose render has no connected device raises the dialog
  "No Device Connected" (the error the specification calls DeviceRequired) and does
  nothing else: no call reaches the engine, the translation does not run, the flag is
  untouched and nothing is left suspended.
\<close>

theorem speak_without_device:
  "connectedDevice r = None \<Longrightarrow>
     speak lc tts r stopThrows speakThrows message s = s\<lparr>alerts := alerts s @ [NoDeviceConnected]\<rparr>
     \<and> ttsCalls (speak lc tts r stopThrows speakThrows message s) = ttsCalls s
     \<and> isSpeaking (speak lc tts r stopThrows speakThrows message s) = isSpeaking s
     \<and> awaitingStop (speak lc tts r stopThrows speakThrows message s) = awaitingStop s
     \<and> awaitingSpeak (speak lc tts r stopThrows speakThrows message s) = awaitingSpeak s
     \<and> settleTimers (speak lc tts r stopThrows speakThrows message s) = settleTimers s"
  by (simp add: speak_def)

theorem speak_without_device_witness:
  "connectedDevice initial_state = None
   \<and> alerts (speak asciiLower Tts initial_state False False (str ''hello'') initial_state)
       = [NoDeviceConnected]
   \<and> ttsCalls (speak asciiLower Tts initial_state False False (str ''hello'') initial_state) = []"
  using speak_without_device [of initial_state asciiLower Tts False False "str ''hello''" initial_state]
  by (simp add: initial_state_def)

text \<open>
  Claim C7. Whatever happens from the initial state on, in whatever order (calls of
  \<open>speak\<close> from any render, also several before the first has settled, utterances the
  engine accepts or rejects, timers, engine events, the other operations), once nothing
  is outstanding the speaking flag is down.
\<close>

theorem speaking_flag_not_stuck:
  "run lc tts evs initial_state = Some s \<Longrightarrow> settled s \<Longrightarrow> \<not> isSpeaking s"
proof -
  assume r: "run lc tts evs initial_state = Some s" and q: "settled s"
  have "speakingAccounted initial_state"
    by (simp add: speakingAccounted_def initial_state_def)
  then have "speakingAccounted s" using r run_accounted by blast
  with q show ?thesis by (auto simp: speakingAccounted_def settled_def)
qed

lemma run_spoken_twice_state:
  "run asciiLower Tts
     [SpeakCall connected_state False False (str ''hello''),
      SpeakCall connected_state False False (str ''goodbye''),
      SafeSpeakSettled False, SafeSpeakSettled True, TimerFired] connected_state
   = Some spoken_twice_state"
  by (simp add: fire_def spoken_twice_state_def speak_def speak_afterStop_def Let_def
      speak_afterSafeSpeak_def speak_timeout_def connected_state_def
      connectToDevice_onPressOK_def connectToDevice_def mounted_state_def initial_state_def)

lemma run_append:
  "run lc tts (es @ fs) s = (case run lc tts es s of None \<Rightarrow> None | Some s' \<Rightarrow> run lc tts fs s')"
  by (induction es arbitrary: s) (auto split: option.splits)

theorem speaking_flag_not_stuck_witness:
  "run asciiLower Tts
     ([Mount, ConnectToDevice (MOCK_DEVICES ! 1), PressOK 0] @
      [SpeakCall connected_state False False (str ''hello''),
       SpeakCall connected_state False False (str ''goodbye''),
       SafeSpeakSettled False, SafeSpeakSettled True, TimerFired]) initial_state
     = Some spoken_twice_state
   \<and> settled spoken_twice_state
   \<and> ttsCalls spoken_twice_state
       = [Speak (str ''Xin ch'' @ [224] @ str ''o''), Speak (str ''T'' @ [7841] @ str ''m bi'' @ [7879] @ str ''t'')]
   \<and> \<not> isSpeaking spoken_twice_state"
proof -
  have r: "run asciiLower Tts
     ([Mount, ConnectToDevice (MOCK_DEVICES ! 1), PressOK 0] @
      [SpeakCall connected_state False False (str ''hello''),
       SpeakCall connected_state False False (str ''goodbye''),
       SafeSpeakSettled False, SafeSpeakSettled True, TimerFired]) initial_state
     = Some spoken_twice_state"
    by (simp only: run_append run_connected_state run_spoken_twice_state option.case)
  have q: "settled spoken_twice_state"
    by (simp add: settled_def spoken_twice_state_def speak_def speak_afterStop_def Let_def
      speak_afterSafeSpeak_def speak_timeout_def connected_state_def
      connectToDevice_onPressOK_def connectToDevice_def mounted_state_def initial_state_def)
  have c: "ttsCalls spoken_twice_state
       = [Speak (str ''Xin ch'' @ [224] @ str ''o''), Speak (str ''T'' @ [7841] @ str ''m bi'' @ [7879] @ str ''t'')]"
    by (simp add: spoken_twice_state_def speak_def speak_afterStop_def Let_def
      speak_afterSafeSpeak_def speak_timeout_def connected_state_def
      connectToDevice_onPressOK_def connectToDevice_def mounted_state_def initial_state_def
      textToSpeak_def DEFAULT_VIETNAMESE_PHRASES_def asciiLower_def str_def)
  show ?thesis
    using r q c speaking_flag_not_stuck [OF r q] by blast
qed

section \<open>Languages\<close>

text \<open>
  Claim C10. Whatever the active engine and whatever its voice query does, the list
  \<open>getAvailableLanguages\<close> returns contains "vi-VN": with \<open>MockTts\<close> it is
  \<open>["vi-VN", "en-US"]\<close>; with the native engine it is the languages of the voices
  without repetitions, with "vi-VN" appended when it is not among them; and when the
  value that came back is no array it is the fallback \<open>["vi-VN", "en-US"]\<close>.
\<close>

theorem getAvailableLanguages_has_Vietnamese:
  "str ''vi-VN'' \<in> set (fst (getAvailableLanguages tts native s))
   \<and> fst (getAvailableLanguages MockTts native s) = [str ''vi-VN'', str ''en-US'']
   \<and> (snd (voicesWithTimeout native) = VoiceArray voices \<longrightarrow>
        fst (getAvailableLanguages Tts native s) =
          (if str ''vi-VN'' \<in> set (List.map_filter voiceLanguage voices)
           then uniqueInOrder (List.map_filter voiceLanguage voices)
           else uniqueInOrder (List.map_filter voiceLanguage voices) @ [str ''vi-VN'']))
   \<and> (snd (voicesWithTimeout native) = NotAnArray \<longrightarrow>
        fst (getAvailableLanguages Tts native s) = [str ''vi-VN'', str ''en-US''])"
  by (auto simp: getAvailableLanguages_def activeVoices_def Let_def set_uniqueInOrder
      split: voices_value.splits)

theorem getAvailableLanguages_has_Vietnamese_witness:
  "snd (voicesWithTimeout (Resolves 10 (VoiceArray [Some \<lparr>language = Some (str ''en-US''), voiceName = None\<rparr>, None])))
     = VoiceArray [Some \<lparr>language = Some (str ''en-US''), voiceName = None\<rparr>, None]
   \<and> fst (getAvailableLanguages Tts
        (Resolves 10 (VoiceArray [Some \<lparr>language = Some (str ''en-US''), voiceName = None\<rparr>, None]))
        initial_state) = [str ''en-US'', str ''vi-VN'']
   \<and> snd (voicesWithTimeout (Resolves 10 NotAnArray)) = NotAnArray
   \<and> fst (getAvailableLanguages Tts (Resolves 10 NotAnArray) initial_state)
       = [str ''vi-VN'', str ''en-US'']"
proof -
  have h1: "snd (voicesWithTimeout (Resolves 10 (VoiceArray [Some \<lparr>language = Some (str ''en-US''), voiceName = None\<rparr>, None])))
     = VoiceArray [Some \<lparr>language = Some (str ''en-US''), voiceName = None\<rparr>, None]"
    by (simp add: voicesWithTimeout_def)
  have h2: "snd (voicesWithTimeout (Resolves 10 NotAnArray)) = NotAnArray"
    by (simp add: voicesWithTimeout_def)
  have e: "(if str ''vi-VN'' \<in> set (List.map_filter voiceLanguage [Some \<lparr>language = Some (str ''en-US''), voiceName = None\<rparr>, None])
           then uniqueInOrder (List.map_filter voiceLanguage [Some \<lparr>language = Some (str ''en-US''), voiceName = None\<rparr>, None])
           else uniqueInOrder (List.map_filter voiceLanguage [Some \<lparr>language = Some (str ''en-US''), voiceName = None\<rparr>, None]) @ [str ''vi-VN''])
         = [str ''en-US'', str ''vi-VN'']"
    by (simp add: List.map_filter_def voiceLanguage_def str_def)
  show ?thesis
    using h1 h2 e
      getAvailableLanguages_has_Vietnamese [of Tts
        "Resolves 10 (VoiceArray [Some \<lparr>language = Some (str ''en-US''), voiceName = None\<rparr>, None])"
        initial_state "[Some \<lparr>language = Some (str ''en-US''), voiceName = None\<rparr>, None]"]
      getAvailableLanguages_has_Vietnamese [of Tts "Resolves 10 NotAnArray" initial_state "[]"]
    by simp
qed

section \<open>The voice query\<close>

text \<open>
  Claim C9. The voice query is a race between the engine and a timer of 3000 ms: it
  never takes longer than 3000 ms. Whenever the engine does not resolve before the
  timer (it throws, rejects, resolves too late or never settles) the voices are the
  one-element fallback, whose language is "vi-VN", and \<open>getAvailableLanguages\<close>
  hands \<open>["vi-VN"]\<close> to its caller. An engine that resolves in time with an array
  decides the voices; one that never settles is answered at 3000 ms, not before. The
  query of \<open>initTts\<close> is the same race.
\<close>

theorem voices_timeout_fallback:
  "fst (voicesWithTimeout p) \<le> 3000
   \<and> ((\<forall>t v. p = Resolves t v \<longrightarrow> 3000 \<le> t) \<longrightarrow>
        snd (voicesWithTimeout p) = VoiceArray [Some fallbackVoice]
        \<and> fst (getAvailableLanguages Tts p s) = [str ''vi-VN''])
   \<and> language fallbackVoice = Some (str ''vi-VN'')
   \<and> (t < 3000 \<longrightarrow> voicesWithTimeout (Resolves t (VoiceArray vs)) = (t, VoiceArray vs))
   \<and> fst (voicesWithTimeout Never) = 3000
   \<and> initTts_availableVoices Tts p = voicesWithTimeout p"
proof (intro conjI impI)
  show "fst (voicesWithTimeout p) \<le> 3000"
    by (cases p) (simp_all add: voicesWithTimeout_def)
  show "language fallbackVoice = Some (str ''vi-VN'')"
    by (simp add: fallbackVoice_def)
  show "fst (voicesWithTimeout Never) = 3000"
    by (simp add: voicesWithTimeout_def)
  show "initTts_availableVoices Tts p = voicesWithTimeout p"
    by (simp add: initTts_availableVoices_def activeVoices_def)
next
  assume "t < 3000"
  then show "voicesWithTimeout (Resolves t (VoiceArray vs)) = (t, VoiceArray vs)"
    by (simp add: voicesWithTimeout_def)
next
  assume a: "\<forall>t v. p = Resolves t v \<longrightarrow> 3000 \<le> t"
  then show fb: "snd (voicesWithTimeout p) = VoiceArray [Some fallbackVoice]"
    by (cases p) (auto simp: voicesWithTimeout_def)
  then show "fst (getAvailableLanguages Tts p s) = [str ''vi-VN'']"
    by (simp add: getAvailableLanguages_def activeVoices_def Let_def List.map_filter_def
        voiceLanguage_def fallbackVoice_def str_def)
qed

text \<open>
  The theorem at an engine that never settles, one that rejects after 20 ms, one that
  resolves after 4000 ms, one that throws, and one that resolves in time.
\<close>

theorem voices_timeout_fallback_witness:
  "snd (voicesWithTimeout Never) = VoiceArray [Some fallbackVoice]
   \<and> fst (voicesWithTimeout Never) = 3000
   \<and> snd (voicesWithTimeout (Rejects 20)) = VoiceArray [Some fallbackVoice]
   \<and> snd (voicesWithTimeout (Resolves 4000 (VoiceArray []))) = VoiceArray [Some fallbackVoice]
   \<and> snd (voicesWithTimeout Throws) = VoiceArray [Some fallbackVoice]
   \<and> fst (getAvailableLanguages Tts Never initial_state) = [str ''vi-VN'']
   \<and> voicesWithTimeout (Resolves 20 (VoiceArray [])) = (20, VoiceArray [])"
  using voices_timeout_fallback [of Never initial_state 20 "[]"]
    voices_timeout_fallback [of "Rejects 20" initial_state 20 "[]"]
    voices_timeout_fallback [of "Resolves 4000 (VoiceArray [])" initial_state 20 "[]"]
    voices_timeout_fallback [of Throws initial_state 20 "[]"]
  by simp


section \<open>Writing the dictionary\<close>

lemma map_of_insertArrayIndex:
  "k \<notin> set (map fst es) \<Longrightarrow> map_of (insertArrayIndex k v es) = (map_of es)(k \<mapsto> v)"
  by (induction es) (auto simp: fun_upd_twist)

lemma map_of_replace_at:
  "map_of (map (\<lambda>e. if fst e = k then (fst e, v) else e) es) x =
     (if x = k then (if k \<in> fst ` set es then Some v else None) else map_of es x)"
  by (induction es) (auto simp: rev_image_eqI)

lemma map_of_replace:
  "k \<in> set (map fst es) \<Longrightarrow>
   map_of (map (\<lambda>e. if fst e = k then (fst e, v) else e) es) = (map_of es)(k \<mapsto> v)"
  by (rule ext) (simp add: map_of_replace_at)

lemma map_of_setProperty: "map_of (setProperty k v es) = (map_of es)(k \<mapsto> v)"
proof (cases "k \<in> set (map fst es)")
  case True
  then show ?thesis by (simp only: setProperty_def if_True map_of_replace)
next
  case False
  then have "map_of es k = None" by (simp add: map_of_eq_None_iff)
  with False show ?thesis
    by (auto simp: setProperty_def map_of_insertArrayIndex map_add_def fun_eq_iff
        split: option.splits)
qed

lemma keys_insertArrayIndex: "fst ` set (insertArrayIndex k v es) = insert k (fst ` set es)"
  by (induction es) auto

lemma distinct_insertArrayIndex:
  "k \<notin> set (map fst es) \<Longrightarrow> distinct (map fst es) \<Longrightarrow> distinct (map fst (insertArrayIndex k v es))"
proof (induction es)
  case Nil
  then show ?case by simp
next
  case (Cons e es)
  then show ?case by (auto simp: keys_insertArrayIndex)
qed

lemma keys_replace: "map fst (map (\<lambda>e. if fst e = k then (fst e, v) else e) es) = map fst es"
  by (induction es) auto

lemma distinct_setProperty:
  "distinct (map fst es) \<Longrightarrow> distinct (map fst (setProperty k v es))"
  by (auto simp: setProperty_def keys_replace distinct_insertArrayIndex simp del: map_map)

lemma propertyOrdered_insertArrayIndex:
  "isArrayIndex k \<Longrightarrow> propertyOrdered (map fst es) \<Longrightarrow>
   propertyOrdered (map fst (insertArrayIndex k v es))"
proof (induction es)
  case Nil
  then show ?case by simp
next
  case (Cons e es)
  show ?case
  proof (cases "isArrayIndex (fst e) \<and> decimalValue (fst e) < decimalValue k")
    case True
    with Cons show ?thesis
      by (auto simp: list_all_iff keys_insertArrayIndex)
  next
    case False
    with Cons show ?thesis
      by (auto simp: list_all_iff split: if_splits)
  qed
qed

lemma propertyOrdered_append:
  "\<not> isArrayIndex k \<Longrightarrow> propertyOrdered ks \<Longrightarrow> propertyOrdered (ks @ [k])"
  by (induction ks) (auto simp: list_all_iff)

lemma propertyOrdered_setProperty:
  "propertyOrdered (map fst es) \<Longrightarrow> propertyOrdered (map fst (setProperty k v es))"
  by (auto simp: setProperty_def keys_replace propertyOrdered_insertArrayIndex
      propertyOrdered_append simp del: map_map)

lemma propertyOrdered_DEFAULT: "propertyOrdered (map fst DEFAULT_VIETNAMESE_PHRASES)"
  by (simp add: DEFAULT_VIETNAMESE_PHRASES_def isArrayIndex_def isDigit_def str_def)

lemma fire_propertyOrdered:
  "propertyOrdered (map fst (vietnamesePhrases s)) \<Longrightarrow> fire lc tts e s = Some s' \<Longrightarrow>
   propertyOrdered (map fst (vietnamesePhrases s'))"
  by (cases e)
    (auto simp: fire_def initTts_setAvailableLanguages_def scanForDevices_def connectToDevice_def
      connectToDevice_onPressOK_def openBluetoothSettings_def disconnectDevice_def
      checkSystemConnection_def forceConnectToDevice_def newDevice_def getAvailableLanguages_def
      setCustomVietnamesePhrase_def speak_def speak_afterStop_def speak_afterSafeSpeak_def
      speak_timeout_def onTtsStart_def onTtsEnd_def Let_def propertyOrdered_setProperty
      simp del: map_map
      split: if_splits prod.splits option.splits list.splits alert.splits voices_value.splits)

lemma run_propertyOrdered:
  "propertyOrdered (map fst (vietnamesePhrases s)) \<Longrightarrow> run lc tts evs s = Some s' \<Longrightarrow>
   propertyOrdered (map fst (vietnamesePhrases s'))"
proof (induction evs arbitrary: s)
  case Nil
  then show ?case by simp
next
  case (Cons e evs)
  from Cons.prems obtain s1 where f: "fire lc tts e s = Some s1" and r: "run lc tts evs s1 = Some s'"
    by (auto split: option.splits)
  have "propertyOrdered (map fst (vietnamesePhrases s1))"
    using fire_propertyOrdered [OF Cons.prems(1) f] .
  then show ?case using Cons.IH r by blast
qed

text \<open>
  Claim C6, as the code has it. \<open>setCustomVietnamesePhrase\<close> raises "Input Error" and
  leaves the dictionary as it is when either argument is the empty string. Otherwise,
  also for arguments that consist of blanks, it raises "Phrase Added" and the
  dictionary maps the lower-cased English phrase to the Vietnamese one, every other key
  to what it was mapped to before; keys stay unique.
\<close>

theorem setCustomVietnamesePhrase_effect:
  "(english = [] \<or> vietnamese = [] \<longrightarrow>
      setCustomVietnamesePhrase lc english vietnamese s = s\<lparr>alerts := alerts s @ [InputError]\<rparr>
      \<and> vietnamesePhrases (setCustomVietnamesePhrase lc english vietnamese s) = vietnamesePhrases s)
   \<and> (english \<noteq> [] \<and> vietnamese \<noteq> [] \<longrightarrow>
      alerts (setCustomVietnamesePhrase lc english vietnamese s)
        = alerts s @ [PhraseAdded english vietnamese]
      \<and> map_of (vietnamesePhrases (setCustomVietnamesePhrase lc english vietnamese s))
        = (map_of (vietnamesePhrases s))(lc english \<mapsto> vietnamese)
      \<and> (distinct (map fst (vietnamesePhrases s)) \<longrightarrow>
           distinct (map fst (vietnamesePhrases (setCustomVietnamesePhrase lc english vietnamese s)))))"
  by (auto simp: setCustomVietnamesePhrase_def map_of_setProperty distinct_setProperty simp del: map_map)

text \<open>
  The theorem at the default dictionary: an empty English phrase is refused, and
  "Hello" overwrites the value of "hello" and nothing else.
\<close>

theorem setCustomVietnamesePhrase_effect_witness:
  "alerts (setCustomVietnamesePhrase asciiLower [] (str ''T'' @ [7841] @ str ''m bi'' @ [7879] @ str ''t'') initial_state)
     = [InputError]
   \<and> vietnamesePhrases (setCustomVietnamesePhrase asciiLower [] (str ''T'' @ [7841] @ str ''m bi'' @ [7879] @ str ''t'') initial_state)
     = DEFAULT_VIETNAMESE_PHRASES
   \<and> str ''Hello'' \<noteq> [] \<and> str ''Ch'' @ [224] @ str ''o'' \<noteq> []
   \<and> distinct (map fst (vietnamesePhrases initial_state))
   \<and> map_of (vietnamesePhrases
        (setCustomVietnamesePhrase asciiLower (str ''Hello'') (str ''Ch'' @ [224] @ str ''o'') initial_state))
        (str ''hello'') = Some (str ''Ch'' @ [224] @ str ''o'')
   \<and> map_of (vietnamesePhrases
        (setCustomVietnamesePhrase asciiLower (str ''Hello'') (str ''Ch'' @ [224] @ str ''o'') initial_state))
        (str ''sorry'') = Some (str ''Xin l'' @ [7895] @ str ''i'')
   \<and> distinct (map fst (vietnamesePhrases
        (setCustomVietnamesePhrase asciiLower (str ''Hello'') (str ''Ch'' @ [224] @ str ''o'') initial_state)))"
proof -
  have n: "str ''Hello'' \<noteq> [] \<and> str ''Ch'' @ [224] @ str ''o'' \<noteq> []"
    by (simp add: str_def)
  have d: "distinct (map fst (vietnamesePhrases initial_state))"
    by (simp add: initial_state_def DEFAULT_VIETNAMESE_PHRASES_def str_def)
  have l: "asciiLower (str ''Hello'') = str ''hello''"
    by (simp add: asciiLower_def str_def)
  have m: "map_of (vietnamesePhrases initial_state) (str ''sorry'') = Some (str ''Xin l'' @ [7895] @ str ''i'')"
    by (simp add: initial_state_def DEFAULT_VIETNAMESE_PHRASES_def str_def)
  have k: "str ''sorry'' \<noteq> str ''hello''"
    by (simp add: str_def)
  have i: "alerts initial_state = [] \<and> vietnamesePhrases initial_state = DEFAULT_VIETNAMESE_PHRASES"
    by (simp add: initial_state_def)
  show ?thesis
    using n d l m k i
      setCustomVietnamesePhrase_effect [of "[]" "str ''T'' @ [7841] @ str ''m bi'' @ [7879] @ str ''t''"
        asciiLower initial_state]
      setCustomVietnamesePhrase_effect [of "str ''Hello''" "str ''Ch'' @ [224] @ str ''o''"
        asciiLower initial_state]
    by simp
qed

text \<open>
  Claim C6 as stated fails: two arguments of blanks raise no "Input Error" and add an
  entry to the default dictionary.
\<close>

theorem setCustomVietnamesePhrase_blank_counterexample:
  "alerts (setCustomVietnamesePhrase asciiLower (str ''   '') (str '' '') initial_state)
     = [PhraseAdded (str ''   '') (str '' '')]
   \<and> vietnamesePhrases (setCustomVietnamesePhrase asciiLower (str ''   '') (str '' '') initial_state)
     = DEFAULT_VIETNAMESE_PHRASES @ [(str ''   '', str '' '')]"
  by (simp add: setCustomVietnamesePhrase_def setProperty_def isArrayIndex_def isDigit_def
      initial_state_def DEFAULT_VIETNAMESE_PHRASES_def asciiLower_def str_def)

section \<open>Translation\<close>

lemma firstMatch_find:
  "firstMatch lowerMsg phrases =
     map_option snd (find (\<lambda>e. js_includes lowerMsg (fst e)) phrases)"
  by (induction phrases) auto

lemma insertArrayIndex_takeWhile:
  "insertArrayIndex k v es =
     takeWhile (\<lambda>e. isArrayIndex (fst e) \<and> decimalValue (fst e) < decimalValue k) es
       @ (k, v) # dropWhile (\<lambda>e. isArrayIndex (fst e) \<and> decimalValue (fst e) < decimalValue k) es"
  by (induction es) auto

text \<open>
  Claim C5, as the code has it. The translation returns the value of the first entry,
  in the order \<open>Object.entries\<close> lists the dictionary, whose key occurs in the
  lower-cased message, and the message itself when there is none. A key that is no
  array index is written in insertion order, as the specification has it; a new key that
  is an array index is placed behind the array indices smaller than it and before every
  other key, and in every state a run reaches the keys are in property order. With the
  default dictionary "I said thank you today" is translated to the phrase stored
  under "thank you".
\<close>

theorem translation_first_match:
  "textToSpeak lc phrases message =
     (case find (\<lambda>e. js_includes (lc message) (fst e)) phrases of
        None \<Rightarrow> message | Some e \<Rightarrow> snd e)
   \<and> (js_includes (lc message) k \<longleftrightarrow> sublist k (lc message))
   \<and> (\<not> isArrayIndex k \<longrightarrow> setProperty k v es = spec_insertionOrderWrite k v es)
   \<and> (isArrayIndex k \<and> k \<notin> set (map fst es) \<longrightarrow>
        setProperty k v es =
          takeWhile (\<lambda>e. isArrayIndex (fst e) \<and> decimalValue (fst e) < decimalValue k) es
            @ (k, v) # dropWhile (\<lambda>e. isArrayIndex (fst e) \<and> decimalValue (fst e) < decimalValue k) es)
   \<and> (run lc tts evs initial_state = Some s \<longrightarrow> propertyOrdered (map fst (vietnamesePhrases s)))
   \<and> (lc (str ''I said thank you today'') = str ''i said thank you today'' \<longrightarrow>
        textToSpeak lc DEFAULT_VIETNAMESE_PHRASES (str ''I said thank you today'')
          = str ''C'' @ [7843] @ str ''m '' @ [417] @ str ''n b'' @ [7841] @ str ''n'')"
proof (intro conjI impI)
  show "textToSpeak lc phrases message =
     (case find (\<lambda>e. js_includes (lc message) (fst e)) phrases of
        None \<Rightarrow> message | Some e \<Rightarrow> snd e)"
    by (simp add: textToSpeak_def firstMatch_find split: option.splits)
  show "js_includes (lc message) k \<longleftrightarrow> sublist k (lc message)"
    by (rule js_includes_sublist)
next
  assume "\<not> isArrayIndex k"
  then show "setProperty k v es = spec_insertionOrderWrite k v es"
    by (simp add: setProperty_def spec_insertionOrderWrite_def)
next
  assume "isArrayIndex k \<and> k \<notin> set (map fst es)"
  then show "setProperty k v es =
          takeWhile (\<lambda>e. isArrayIndex (fst e) \<and> decimalValue (fst e) < decimalValue k) es
            @ (k, v) # dropWhile (\<lambda>e. isArrayIndex (fst e) \<and> decimalValue (fst e) < decimalValue k) es"
    using insertArrayIndex_takeWhile [of k v es] by (simp add: setProperty_def)
next
  assume "run lc tts evs initial_state = Some s"
  then show "propertyOrdered (map fst (vietnamesePhrases s))"
    using run_propertyOrdered [of initial_state lc tts evs s] propertyOrdered_DEFAULT
    by (simp add: initial_state_def)
next
  assume "lc (str ''I said thank you today'') = str ''i said thank you today''"
  then show "textToSpeak lc DEFAULT_VIETNAMESE_PHRASES (str ''I said thank you today'')
          = str ''C'' @ [7843] @ str ''m '' @ [417] @ str ''n b'' @ [7841] @ str ''n''"
    by (simp add: textToSpeak_def DEFAULT_VIETNAMESE_PHRASES_def str_def)
qed

text \<open>
  The theorem with ASCII lower-casing: the example of the claim, a key that is no array
  index, a key that is one, a run, and a message that no key occurs in.
\<close>

theorem translation_first_match_witness:
  "asciiLower (str ''I said thank you today'') = str ''i said thank you today''
   \<and> textToSpeak asciiLower DEFAULT_VIETNAMESE_PHRASES (str ''I said thank you today'')
       = str ''C'' @ [7843] @ str ''m '' @ [417] @ str ''n b'' @ [7841] @ str ''n''
   \<and> \<not> isArrayIndex (str ''see you'')
   \<and> setProperty (str ''see you'') (str ''H'' @ [7865] @ str ''n g'' @ [7863] @ str ''p l'' @ [7841] @ str ''i'') DEFAULT_VIETNAMESE_PHRASES
       = DEFAULT_VIETNAMESE_PHRASES @ [(str ''see you'', str ''H'' @ [7865] @ str ''n g'' @ [7863] @ str ''p l'' @ [7841] @ str ''i'')]
   \<and> isArrayIndex (str ''1'') \<and> str ''1'' \<notin> set (map fst DEFAULT_VIETNAMESE_PHRASES)
   \<and> setProperty (str ''1'') (str ''m'' @ [7897] @ str ''t'') DEFAULT_VIETNAMESE_PHRASES
       = (str ''1'', str ''m'' @ [7897] @ str ''t'') # DEFAULT_VIETNAMESE_PHRASES
   \<and> run asciiLower Tts [Mount, ConnectToDevice (MOCK_DEVICES ! 1), PressOK 0] initial_state
       = Some connected_state
   \<and> propertyOrdered (map fst (vietnamesePhrases connected_state))
   \<and> textToSpeak asciiLower DEFAULT_VIETNAMESE_PHRASES (str ''Payment of 5 USD'') = str ''Payment of 5 USD''"
proof -
  have l: "asciiLower (str ''I said thank you today'') = str ''i said thank you today''"
    by (simp add: asciiLower_def str_def)
  have n: "\<not> isArrayIndex (str ''see you'')"
    by (simp add: isArrayIndex_def isDigit_def str_def)
  have w: "spec_insertionOrderWrite (str ''see you'') (str ''H'' @ [7865] @ str ''n g'' @ [7863] @ str ''p l'' @ [7841] @ str ''i'') DEFAULT_VIETNAMESE_PHRASES
       = DEFAULT_VIETNAMESE_PHRASES @ [(str ''see you'', str ''H'' @ [7865] @ str ''n g'' @ [7863] @ str ''p l'' @ [7841] @ str ''i'')]"
    by (simp add: spec_insertionOrderWrite_def DEFAULT_VIETNAMESE_PHRASES_def str_def)
  have i: "isArrayIndex (str ''1'') \<and> str ''1'' \<notin> set (map fst DEFAULT_VIETNAMESE_PHRASES)"
    by (simp add: isArrayIndex_def isDigit_def decimalValue_def DEFAULT_VIETNAMESE_PHRASES_def str_def)
  have t: "takeWhile (\<lambda>e. isArrayIndex (fst e) \<and> decimalValue (fst e) < decimalValue (str ''1''))
             DEFAULT_VIETNAMESE_PHRASES = []
       \<and> dropWhile (\<lambda>e. isArrayIndex (fst e) \<and> decimalValue (fst e) < decimalValue (str ''1''))
             DEFAULT_VIETNAMESE_PHRASES = DEFAULT_VIETNAMESE_PHRASES"
    by (simp add: isArrayIndex_def isDigit_def DEFAULT_VIETNAMESE_PHRASES_def str_def)
  have f: "(case find (\<lambda>e. js_includes (asciiLower (str ''Payment of 5 USD'')) (fst e)) DEFAULT_VIETNAMESE_PHRASES of
        None \<Rightarrow> str ''Payment of 5 USD'' | Some e \<Rightarrow> snd e) = str ''Payment of 5 USD''"
    by (simp add: DEFAULT_VIETNAMESE_PHRASES_def asciiLower_def str_def)
  show ?thesis
    using l n w i t f run_connected_state
      translation_first_match [of asciiLower DEFAULT_VIETNAMESE_PHRASES "str ''I said thank you today''"
        "str ''see you''" "str ''H'' @ [7865] @ str ''n g'' @ [7863] @ str ''p l'' @ [7841] @ str ''i''" DEFAULT_VIETNAMESE_PHRASES
        Tts "[Mount, ConnectToDevice (MOCK_DEVICES ! 1), PressOK 0]" connected_state]
      translation_first_match [of asciiLower DEFAULT_VIETNAMESE_PHRASES "str ''Payment of 5 USD''"
        "str ''1''" "str ''m'' @ [7897] @ str ''t''" DEFAULT_VIETNAMESE_PHRASES Tts "[]" initial_state]
    by simp
qed

text \<open>
  Claim C5 as stated fails: after the phrase "1" has been added to the default
  dictionary, "hello 1" is translated to the value of "1", although "hello" was
  inserted first and occurs in the message; in insertion order the result would be the
  value of "hello".
\<close>

theorem translation_insertion_order_counterexample:
  "textToSpeak asciiLower
     (vietnamesePhrases
        (setCustomVietnamesePhrase asciiLower (str ''1'') (str ''m'' @ [7897] @ str ''t'') initial_state))
     (str ''hello 1'') = str ''m'' @ [7897] @ str ''t''
   \<and> textToSpeak asciiLower
       (spec_insertionOrderWrite (asciiLower (str ''1'')) (str ''m'' @ [7897] @ str ''t'')
          DEFAULT_VIETNAMESE_PHRASES)
       (str ''hello 1'') = str ''Xin ch'' @ [224] @ str ''o''"
  by (simp add: textToSpeak_def setCustomVietnamesePhrase_def setProperty_def
      spec_insertionOrderWrite_def isArrayIndex_def isDigit_def decimalValue_def
      initial_state_def DEFAULT_VIETNAMESE_PHRASES_def asciiLower_def str_def)

section \<open>Identifiers of a scan\<close>

lemma unitInterval_Math_random:
  "unitInterval g \<Longrightarrow> unitInterval (snd (Math_random g)) \<and> 0 \<le> fst (Math_random g) \<and> fst (Math_random g) < 1"
  by (simp add: unitInterval_def Math_random_def)

lemma unitInterval_randomHexChar: "unitInterval g \<Longrightarrow> unitInterval (snd (randomHexChar g))"
  by (simp add: randomHexChar_def unitInterval_def Math_random_def)

lemma unitInterval_randomSection: "unitInterval g \<Longrightarrow> unitInterval (snd (randomSection g))"
  using unitInterval_randomHexChar
  by (auto simp: randomSection_def split: prod.splits) (metis snd_conv)

lemma unitInterval_loop:
  "unitInterval g \<Longrightarrow> unitInterval (snd (generateRandomId_loop i result g))"
proof (induction i result g rule: generateRandomId_loop.induct)
  case (1 i result g)
  show ?case
  proof (cases "i < 6")
    case True
    obtain sec g' where rs: "randomSection g = (sec, g')" by (cases "randomSection g")
    then have "unitInterval g'" using unitInterval_randomSection [OF "1.prems"] by simp
    with "1.IH" [OF True rs [symmetric]] True rs show ?thesis
      by (subst generateRandomId_loop.simps) simp
  next
    case False
    with "1.prems" show ?thesis by (subst generateRandomId_loop.simps) simp
  qed
qed

lemma unitInterval_generateRandomId: "unitInterval g \<Longrightarrow> unitInterval (snd (generateRandomId g))"
  unfolding generateRandomId_def by (rule unitInterval_loop)

lemma unitInterval_randomDevice: "unitInterval g \<Longrightarrow> unitInterval (snd (randomDevice n g))"
  using unitInterval_generateRandomId
  by (auto simp: randomDevice_def split: prod.splits) (metis snd_conv)

lemma unitInterval_additionalDevices:
  "unitInterval g \<Longrightarrow> unitInterval (snd (additionalDevices g))"
  using unitInterval_randomDevice
  by (auto simp: additionalDevices_def split: prod.splits) (metis snd_conv)

lemma length_additionalDevices: "length (fst (additionalDevices g)) = 4"
  by (simp add: additionalDevices_def split: prod.splits)

lemma MOCK_ids_distinct: "distinct (map id' MOCK_DEVICES)"
  by (simp add: MOCK_DEVICES_def str_def)

lemma scanForDevices_randomDevices: "devices (fst (scanForDevices g s)) = fst (randomDevices g)"
  by (simp add: scanForDevices_def split: prod.splits)

lemma randomDevices_split:
  "fst (randomDevices g) = MOCK_DEVICES @ drop 3 (fst (randomDevices g))"
  by (simp add: randomDevices_shape MOCK_DEVICES_def)

lemma randomDevices_length:
  assumes "unitInterval g"
  shows "length (fst (randomDevices g)) \<le> 6"
proof (cases "g 0 > 0.5")
  case True
  let ?y = "snd (additionalDevices (snd (Math_random g))) 0"
  have "unitInterval (snd (additionalDevices (snd (Math_random g))))"
    using assms unitInterval_Math_random unitInterval_additionalDevices by blast
  then have "?y < 1" by (simp add: unitInterval_def)
  then have "\<lfloor>?y * 3\<rfloor> \<le> 2" by (simp add: floor_le_iff)
  then have "nat (\<lfloor>?y * 3\<rfloor> + 1) \<le> 3" by linarith
  with True show ?thesis
    by (simp add: randomDevices_shape MOCK_DEVICES_def)
next
  case False
  then show ?thesis by (simp add: randomDevices_shape MOCK_DEVICES_def)
qed

lemma generateRandomId_explicit:
  "generateRandomId g =
    (charAt hexChars \<lfloor>g 0 * 16\<rfloor> @ charAt hexChars \<lfloor>g 1 * 16\<rfloor> @ str '':'' @
     charAt hexChars \<lfloor>g 2 * 16\<rfloor> @ charAt hexChars \<lfloor>g 3 * 16\<rfloor> @ str '':'' @
     charAt hexChars \<lfloor>g 4 * 16\<rfloor> @ charAt hexChars \<lfloor>g 5 * 16\<rfloor> @ str '':'' @
     charAt hexChars \<lfloor>g 6 * 16\<rfloor> @ charAt hexChars \<lfloor>g 7 * 16\<rfloor> @ str '':'' @
     charAt hexChars \<lfloor>g 8 * 16\<rfloor> @ charAt hexChars \<lfloor>g 9 * 16\<rfloor> @ str '':'' @
     charAt hexChars \<lfloor>g 10 * 16\<rfloor> @ charAt hexChars \<lfloor>g 11 * 16\<rfloor>,
     drop_rng 12 g)"
  by (simp add: generateRandomId_def randomSection_def randomHexChar_def Math_random_def
      drop_rng_def hexChars_def str_def eval_nat_numeral)

lemma charAt_in_range:
  "0 \<le> k \<Longrightarrow> k < 16 \<Longrightarrow> charAt hexChars k = [hexChars ! nat k] \<and> nat k < 16"
  by (simp add: charAt_def hexChars_def str_def)

lemma charAt_hexDigit:
  assumes "0 \<le> x" "x < 1"
  shows "charAt hexChars \<lfloor>x * 16\<rfloor> = [hexChars ! hexDigit x] \<and> hexDigit x < 16"
proof -
  have "0 \<le> \<lfloor>x * 16\<rfloor>" using assms by simp
  moreover have "\<lfloor>x * 16\<rfloor> < 16" using assms by (simp add: floor_less_iff)
  ultimately show ?thesis
    unfolding hexDigit_def by (rule charAt_in_range)
qed

lemma hexChars_inj: "a < 16 \<Longrightarrow> b < 16 \<Longrightarrow> (hexChars ! a = hexChars ! b) = (a = b)"
proof -
  have "distinct hexChars" and "length hexChars = 16"
    by (simp_all add: hexChars_def str_def)
  then show "a < 16 \<Longrightarrow> b < 16 \<Longrightarrow> (hexChars ! a = hexChars ! b) = (a = b)"
    by (simp add: nth_eq_iff_index_eq)
qed

lemma equal_ids_equal_digits:
  assumes "unitInterval g" "unitInterval h"
  shows "(fst (generateRandomId g) = fst (generateRandomId h)) = (idDigits g = idDigits h)"
proof -
  have g: "\<And>n. charAt hexChars \<lfloor>g n * 16\<rfloor> = [hexChars ! hexDigit (g n)] \<and> hexDigit (g n) < 16"
    using assms(1) charAt_hexDigit by (simp add: unitInterval_def)
  have h: "\<And>n. charAt hexChars \<lfloor>h n * 16\<rfloor> = [hexChars ! hexDigit (h n)] \<and> hexDigit (h n) < 16"
    using assms(2) charAt_hexDigit by (simp add: unitInterval_def)
  show ?thesis
    by (simp add: generateRandomId_explicit g h hexChars_inj idDigits_def)
qed

lemma drop_rng_drop_rng: "drop_rng a (drop_rng b g) = drop_rng (a + b) g"
  by (simp add: drop_rng_def add.assoc)

lemma drop_rng_apply: "drop_rng p g n = g (n + p)"
  by (simp add: drop_rng_def)

lemma unitInterval_drop_rng: "unitInterval g \<Longrightarrow> unitInterval (drop_rng p g)"
  by (simp add: unitInterval_def drop_rng_def)

lemma snd_Math_random: "snd (Math_random g) = drop_rng 1 g"
  by (simp add: Math_random_def drop_rng_def)

lemma randomDevice_explicit:
  "randomDevice n g =
     (\<lparr>name = Some n, id' = fst (generateRandomId g),
       address = Some (fst (generateRandomId (drop_rng 12 g))), connected' = Some False\<rparr>,
      drop_rng 24 g)"
  by (simp add: randomDevice_def generateRandomId_explicit drop_rng_drop_rng)

lemma upt_4: "[0..<4] = [0, 1, 2, 3]"
  by (simp add: upt_rec)

lemma additionalDevices_ids:
  "map id' (fst (additionalDevices g))
     = map (\<lambda>k. fst (generateRandomId (drop_rng (24 * k) g))) [0..<4]
   \<and> snd (additionalDevices g) = drop_rng 96 g"
proof -
  have z: "drop_rng 0 g = g" by (simp add: drop_rng_def)
  show ?thesis
    by (simp add: additionalDevices_def randomDevice_explicit drop_rng_drop_rng upt_4 z)
qed

lemma distinct_map_cong:
  "(\<And>x y. x \<in> set xs \<Longrightarrow> y \<in> set xs \<Longrightarrow> (f x = f y) = (h x = h y)) \<Longrightarrow>
   distinct (map f xs) = distinct (map h xs)"
proof (induction xs)
  case Nil
  then show ?case by simp
next
  case (Cons x xs)
  have "(f x \<in> f ` set xs) = (h x \<in> h ` set xs)"
    using Cons.prems by (auto simp: image_iff)
  moreover have "distinct (map f xs) = distinct (map h xs)"
    using Cons by simp
  ultimately show ?case by simp
qed

lemma unitInterval_digits_rng: "\<forall>d \<in> set ds. d < 16 \<Longrightarrow> unitInterval (digits_rng ds)"
  by (auto simp: unitInterval_def digits_rng_def)

lemma baseline_ids:
  "map id' MOCK_DEVICES = map (\<lambda>ds. fst (generateRandomId (digits_rng ds))) baselineDigits"
  by (simp add: MOCK_DEVICES_def baselineDigits_def generateRandomId_explicit digits_rng_def
      charAt_def hexChars_def str_def)

lemma baseline_digits: "map (\<lambda>ds. idDigits (digits_rng ds)) baselineDigits = baselineDigits"
  by (simp add: baselineDigits_def idDigits_def digits_rng_def hexDigit_def)

lemma baseline_unitInterval: "ds \<in> set baselineDigits \<Longrightarrow> unitInterval (digits_rng ds)"
  by (rule unitInterval_digits_rng) (auto simp: baselineDigits_def)

lemma scan_ids_generators:
  assumes "unitInterval g"
  shows "map id' (devices (fst (scanForDevices g s))) =
     map (\<lambda>h. fst (generateRandomId h))
       (map digits_rng baselineDigits @
        (if g 0 > 0.5
         then map (\<lambda>k. drop_rng (1 + 24 * k) g) [0..<nat (\<lfloor>g 97 * 3\<rfloor> + 1)]
         else []))"
proof (cases "g 0 > 0.5")
  case False
  then show ?thesis
    by (simp add: scanForDevices_randomDevices randomDevices_shape baseline_ids comp_def)
next
  case True
  let ?n = "nat (\<lfloor>g 97 * 3\<rfloor> + 1)"
  have y: "snd (additionalDevices (snd (Math_random g))) 0 = g 97"
    by (simp add: additionalDevices_ids snd_Math_random drop_rng_drop_rng drop_rng_apply)
  have "g 97 < 1" using assms by (simp add: unitInterval_def)
  then have "\<lfloor>g 97 * 3\<rfloor> \<le> 2" by (simp add: floor_le_iff)
  then have n: "?n \<le> 3" by linarith
  have "map id' (take ?n (fst (additionalDevices (snd (Math_random g)))))
      = take ?n (map (\<lambda>k. fst (generateRandomId (drop_rng (24 * k) (drop_rng 1 g)))) [0..<4])"
    by (simp only: take_map [symmetric] additionalDevices_ids snd_Math_random)
  also have "\<dots> = map (\<lambda>k. fst (generateRandomId (drop_rng (1 + 24 * k) g))) [0..<?n]"
    using n by (simp add: take_map take_upt drop_rng_drop_rng add.commute)
  finally have a: "map id' (take ?n (fst (additionalDevices (snd (Math_random g)))))
      = map (\<lambda>k. fst (generateRandomId (drop_rng (1 + 24 * k) g))) [0..<?n]" .
  show ?thesis
    using True a by (simp add: scanForDevices_randomDevices randomDevices_shape y baseline_ids comp_def)
qed

lemma scan_count:
  assumes "unitInterval g"
  shows "length (devices (fst (scanForDevices g s)))
           = 3 + (if g 0 > 0.5 then nat (\<lfloor>g 97 * 3\<rfloor> + 1) else 0)"
proof -
  have "length (map id' (devices (fst (scanForDevices g s))))
           = 3 + (if g 0 > 0.5 then nat (\<lfloor>g 97 * 3\<rfloor> + 1) else 0)"
    unfolding scan_ids_generators [OF assms]
    by (simp add: baselineDigits_def)
  then show ?thesis by simp
qed

lemma scan_count_bounds:
  assumes "unitInterval g"
  shows "3 \<le> length (devices (fst (scanForDevices g s)))
         \<and> length (devices (fst (scanForDevices g s))) \<le> 6"
proof -
  have "g 97 < 1" using assms by (simp add: unitInterval_def)
  then have "\<lfloor>g 97 * 3\<rfloor> \<le> 2" by (simp add: floor_le_iff)
  then have "nat (\<lfloor>g 97 * 3\<rfloor> + 1) \<le> 3" by linarith
  then show ?thesis by (simp add: scan_count [OF assms])
qed

lemma appended_ids:
  assumes "unitInterval g"
  shows "map id' (drop 3 (devices (fst (scanForDevices g s))))
     = map (\<lambda>k. fst (generateRandomId (drop_rng (1 + 24 * k) g)))
         [0..<length (devices (fst (scanForDevices g s))) - 3]"
proof -
  have "drop 3 (map id' (devices (fst (scanForDevices g s))))
     = map (\<lambda>k. fst (generateRandomId (drop_rng (1 + 24 * k) g)))
         [0..<length (devices (fst (scanForDevices g s))) - 3]"
    unfolding scan_count [OF assms] scan_ids_generators [OF assms]
    by (simp add: baselineDigits_def)
  then show ?thesis by (simp add: drop_map)
qed

lemma scan_ids_distinct:
  assumes "unitInterval g"
  shows "distinct (map id' (devices (fst (scanForDevices g s))))
           = distinct (baselineDigits
               @ appendedDigits g (length (devices (fst (scanForDevices g s))) - 3))"
proof -
  let ?gens = "map digits_rng baselineDigits @
        (if g 0 > 0.5
         then map (\<lambda>k. drop_rng (1 + 24 * k) g) [0..<nat (\<lfloor>g 97 * 3\<rfloor> + 1)]
         else [])"
  have u: "\<And>h. h \<in> set ?gens \<Longrightarrow> unitInterval h"
    using assms baseline_unitInterval unitInterval_drop_rng by (auto split: if_splits)
  have "distinct (map (\<lambda>h. fst (generateRandomId h)) ?gens) = distinct (map idDigits ?gens)"
    by (rule distinct_map_cong) (simp add: equal_ids_equal_digits u)
  moreover have "map idDigits ?gens
      = baselineDigits @ appendedDigits g (length (devices (fst (scanForDevices g s))) - 3)"
    using baseline_digits by (simp add: appendedDigits_def comp_def scan_count [OF assms])
  ultimately show ?thesis
    by (simp only: scan_ids_generators [OF assms])
qed

text \<open>
  Claim C8, as the code has it. A scan returns the three baseline devices followed by
  the devices it appends: none when the first random number is at most 0.5, at most
  three otherwise, their identifiers generated from the random numbers that follow. Two
  identifiers that \<open>generateRandomId\<close> produces are equal exactly if the same twelve
  digits were drawn for them. So the identifiers of the returned list are pairwise
  different exactly if the digits drawn for the appended devices differ from one
  device to the next and from the digits of the three baseline identifiers.
\<close>

theorem scan_ids:
  "take 3 (devices (fst (scanForDevices g s))) = MOCK_DEVICES
   \<and> (g 0 \<le> 0.5 \<longrightarrow> devices (fst (scanForDevices g s)) = MOCK_DEVICES)
   \<and> (unitInterval g \<longrightarrow>
        3 \<le> length (devices (fst (scanForDevices g s)))
        \<and> length (devices (fst (scanForDevices g s))) \<le> 6
        \<and> map id' (drop 3 (devices (fst (scanForDevices g s))))
            = map (\<lambda>k. fst (generateRandomId (drop_rng (1 + 24 * k) g)))
                [0..<length (devices (fst (scanForDevices g s))) - 3]
        \<and> (unitInterval h \<longrightarrow>
             (fst (generateRandomId g) = fst (generateRandomId h)) = (idDigits g = idDigits h))
        \<and> distinct (map id' (devices (fst (scanForDevices g s))))
            = distinct (baselineDigits
                @ appendedDigits g (length (devices (fst (scanForDevices g s))) - 3)))"
proof (intro conjI impI)
  show "take 3 (devices (fst (scanForDevices g s))) = MOCK_DEVICES"
    by (simp add: scanForDevices_randomDevices randomDevices_shape MOCK_DEVICES_def)
next
  assume "g 0 \<le> 0.5"
  then show "devices (fst (scanForDevices g s)) = MOCK_DEVICES"
    by (simp add: scanForDevices_randomDevices randomDevices_shape)
next
  assume u: "unitInterval g"
  show "3 \<le> length (devices (fst (scanForDevices g s)))"
    using scan_count_bounds [OF u] by simp
  show "length (devices (fst (scanForDevices g s))) \<le> 6"
    using scan_count_bounds [OF u] by simp
  show "map id' (drop 3 (devices (fst (scanForDevices g s))))
            = map (\<lambda>k. fst (generateRandomId (drop_rng (1 + 24 * k) g)))
                [0..<length (devices (fst (scanForDevices g s))) - 3]"
    by (rule appended_ids [OF u])
  show "distinct (map id' (devices (fst (scanForDevices g s))))
            = distinct (baselineDigits
                @ appendedDigits g (length (devices (fst (scanForDevices g s))) - 3))"
    by (rule scan_ids_distinct [OF u])
next
  assume "unitInterval g" "unitInterval h"
  then show "(fst (generateRandomId g) = fst (generateRandomId h)) = (idDigits g = idDigits h)"
    by (rule equal_ids_equal_digits)
qed

lemma generateRandomId_threeQuarters:
  "generateRandomId (constant_rng (3/4)) = (str ''CC:CC:CC:CC:CC:CC'', constant_rng (3/4))"
  by (simp add: generateRandomId_def randomSection_def randomHexChar_def Math_random_constant
      charAt_def hexChars_def str_def)

lemma generateRandomId_zero:
  "generateRandomId (constant_rng 0) = (str ''00:00:00:00:00:00'', constant_rng 0)"
  by (simp add: generateRandomId_def randomSection_def randomHexChar_def Math_random_constant
      charAt_def hexChars_def str_def)

text \<open>
  Claim C8 as stated fails: when every random number is 0.75 the scan appends three
  devices, and the devices at positions 3 and 4 have the same identifier.
\<close>

theorem scan_ids_counterexample:
  "unitInterval (constant_rng (3/4))
   \<and> length (devices (fst (scanForDevices (constant_rng (3/4)) mounted_state))) = 6
   \<and> id' (devices (fst (scanForDevices (constant_rng (3/4)) mounted_state)) ! 3) = str ''CC:CC:CC:CC:CC:CC''
   \<and> id' (devices (fst (scanForDevices (constant_rng (3/4)) mounted_state)) ! 4) = str ''CC:CC:CC:CC:CC:CC''"
  by (simp add: unitInterval_constant scanForDevices_def randomDevices_def additionalDevices_def
      randomDevice_def generateRandomId_threeQuarters Math_random_constant MOCK_DEVICES_def Let_def)

lemma unitInterval_example_rng: "unitInterval example_rng"
proof -
  have "n div 24 mod 3 < 6" for n :: nat
  proof -
    have "n div 24 mod 3 < 3" by simp
    then show ?thesis by linarith
  qed
  then show ?thesis by (simp add: unitInterval_def example_rng_def)
qed

lemma upt_3: "[0..<3] = [0, 1, 2]"
  by (simp add: upt_rec)

lemma appendedDigits_example:
  "appendedDigits example_rng 3 =
     [[10, 10, 10, 10, 10, 10, 10, 10, 10, 10, 10, 10],
      [11, 11, 11, 11, 11, 11, 11, 11, 11, 11, 11, 11],
      [12, 12, 12, 12, 12, 12, 12, 12, 12, 12, 12, 12]]"
  by (simp add: appendedDigits_def idDigits_def drop_rng_def example_rng_def hexDigit_def upt_3)

lemma appendedDigits_constant:
  "appendedDigits (constant_rng (3/4)) 3 =
     [[12, 12, 12, 12, 12, 12, 12, 12, 12, 12, 12, 12],
      [12, 12, 12, 12, 12, 12, 12, 12, 12, 12, 12, 12],
      [12, 12, 12, 12, 12, 12, 12, 12, 12, 12, 12, 12]]"
  by (simp add: appendedDigits_def idDigits_def drop_rng_def constant_rng_def hexDigit_def upt_3)

text \<open>
  The theorem at three sources: one for which the scan appends three devices with
  different identifiers, the constant source 0.75, for which it appends three devices
  with the same identifier, and the constant source 0.25, for which it appends none.
\<close>

theorem scan_ids_witness:
  "unitInterval example_rng
   \<and> length (devices (fst (scanForDevices example_rng mounted_state))) = 6
   \<and> appendedDigits example_rng 3 =
       [[10, 10, 10, 10, 10, 10, 10, 10, 10, 10, 10, 10],
        [11, 11, 11, 11, 11, 11, 11, 11, 11, 11, 11, 11],
        [12, 12, 12, 12, 12, 12, 12, 12, 12, 12, 12, 12]]
   \<and> distinct (map id' (devices (fst (scanForDevices example_rng mounted_state))))
   \<and> unitInterval (constant_rng (3/4))
   \<and> length (devices (fst (scanForDevices (constant_rng (3/4)) mounted_state))) = 6
   \<and> \<not> distinct (map id' (devices (fst (scanForDevices (constant_rng (3/4)) mounted_state))))
   \<and> constant_rng (1/4) 0 \<le> 0.5
   \<and> devices (fst (scanForDevices (constant_rng (1/4)) mounted_state)) = MOCK_DEVICES"
proof -
  have u: "unitInterval example_rng" by (rule unitInterval_example_rng)
  have c: "unitInterval (constant_rng (3/4))" by (simp add: unitInterval_constant)
  have h: "constant_rng (1/4) 0 \<le> 0.5" by (simp add: constant_rng_apply)
  have l1: "length (devices (fst (scanForDevices example_rng mounted_state))) = 6"
    by (simp add: scan_count [OF u] example_rng_def)
  have l2: "length (devices (fst (scanForDevices (constant_rng (3/4)) mounted_state))) = 6"
    by (simp add: scan_count [OF c] constant_rng_apply)
  have d: "distinct (baselineDigits @ appendedDigits example_rng 3)"
    by (simp add: appendedDigits_example baselineDigits_def)
  have e: "\<not> distinct (baselineDigits @ appendedDigits (constant_rng (3/4)) 3)"
    by (simp add: appendedDigits_constant)
  show ?thesis
    using u c h l1 l2 d e appendedDigits_example
      scan_ids [of example_rng mounted_state example_rng]
      scan_ids [of "constant_rng (3/4)" mounted_state example_rng]
      scan_ids [of "constant_rng (1/4)" mounted_state example_rng]
    by simp
qed

section \<open>Forced connection\<close>

lemma name_newDevice: "name (fst (newDevice q g)) = Some q"
  by (simp add: newDevice_def split: prod.splits)

lemma forceConnect_found:
  assumes "find (matchesQuery lc q) (devices r) = Some d"
  shows "forceConnectToDevice lc r q g s
           = (True, s\<lparr>alerts := alerts s @ [SystemConnectionRequired d]\<rparr>, g)"
  using assms by (simp add: forceConnectToDevice_def connectToDevice_def)

lemma forceConnect_synthesized:
  assumes "q \<noteq> []" "devices r \<noteq> []" "find (matchesQuery lc q) (devices r) = None"
  shows "forceConnectToDevice lc r q g s
           = (True,
              (fst (scanForDevices g s))
                \<lparr>devices := devices (fst (scanForDevices g s)) @ [fst (newDevice q (snd (scanForDevices g s)))],
                 alerts := alerts s @ [SystemConnectionRequired (fst (newDevice q (snd (scanForDevices g s))))]\<rparr>,
              snd (newDevice q (snd (scanForDevices g s))))"
proof -
  obtain s1 g1 where sc: "scanForDevices g s = (s1, g1)" by (cases "scanForDevices g s")
  obtain device g2 where nd: "newDevice q g1 = (device, g2)" by (cases "newDevice q g1")
  have a: "alerts s1 = alerts s"
    using sc by (auto simp: scanForDevices_def split: prod.splits)
  show ?thesis
    using assms by (simp add: forceConnectToDevice_def connectToDevice_def Let_def sc nd a)
qed

lemma js_includes_refl: "js_includes x x"
  by (simp add: js_includes_sublist)

lemma matchesQuery_newDevice: "q \<noteq> [] \<Longrightarrow> matchesQuery lc q (fst (newDevice q g))"
  by (simp add: matchesQuery_def name_newDevice js_includes_refl)

lemma matchesQuery_found: "find (matchesQuery lc q) ds = Some d \<Longrightarrow> matchesQuery lc q d"
  by (auto simp: find_Some_iff)


lemma colon_in_generated: "58 \<in> set (fst (generateRandomId h))"
  by (simp add: generateRandomId_explicit str_def)

lemma generated_not_nonexistent: "fst (generateRandomId h) \<noteq> str ''Nonexistent-XYZ''"
proof
  assume "fst (generateRandomId h) = str ''Nonexistent-XYZ''"
  then have "58 \<in> set (str ''Nonexistent-XYZ'')" using colon_in_generated [of h] by simp
  then show False by (simp add: str_def)
qed

lemma additional_no_match:
  "d \<in> set (fst (additionalDevices h)) \<Longrightarrow> \<not> matchesQuery asciiLower (str ''Nonexistent-XYZ'') d"
  using generated_not_nonexistent
  by (auto simp: additionalDevices_def randomDevice_explicit matchesQuery_def asciiLower_def str_def)

lemma baseline_no_match:
  "d \<in> set MOCK_DEVICES \<Longrightarrow> \<not> matchesQuery asciiLower (str ''Nonexistent-XYZ'') d"
  by (auto simp: MOCK_DEVICES_def matchesQuery_def asciiLower_def str_def)

lemma scan_no_match:
  "find (matchesQuery asciiLower (str ''Nonexistent-XYZ'')) (devices (fst (scanForDevices g s))) = None"
proof -
  have "\<not> matchesQuery asciiLower (str ''Nonexistent-XYZ'') d"
    if "d \<in> set (fst (randomDevices g))" for d
  proof -
    have "d \<in> set MOCK_DEVICES \<or> d \<in> set (fst (additionalDevices (snd (Math_random g))))"
      using that by (auto simp: randomDevices_shape split: if_splits dest: in_set_takeD)
    then show ?thesis using baseline_no_match additional_no_match by blast
  qed
  then show ?thesis
    by (simp add: find_None_iff scanForDevices_randomDevices)
qed

text \<open>
  Claim C1, as the code has it. Let the query be non-empty and the registry seen by the
  call non-empty. Then \<open>forceConnectToDevice\<close> returns \<open>true\<close>, leaves the
  connected-device cell as it is and raises the confirmation dialog for a device that
  matches the query; when the user confirms the dialog, that device is the connected
  device. If an entry of the registry seen by the call matches, the device is the first
  such entry and there is no scan. If none matches, the call scans and the device is a
  placeholder named after the query, appended to the registry behind the scan's result;
  after the confirmation it is the last entry of the registry, marked connected. The
  registry searched after the scan is the one of the calling render. No scan returns
  a device that matches "Nonexistent-XYZ".
\<close>

theorem forceConnect_prompts_connection:
  "q \<noteq> [] \<Longrightarrow> devices r \<noteq> [] \<Longrightarrow>
    fst (forceConnectToDevice lc r q g s) = True
    \<and> connectedDevice (fst (snd (forceConnectToDevice lc r q g s))) = connectedDevice s
    \<and> (\<exists>device. matchesQuery lc q device
          \<and> alerts (fst (snd (forceConnectToDevice lc r q g s)))
              = alerts s @ [SystemConnectionRequired device]
          \<and> connectedDevice (connectToDevice_onPressOK device (fst (snd (forceConnectToDevice lc r q g s))))
              = Some (device\<lparr>connected' := Some True\<rparr>))
    \<and> (find (matchesQuery lc q) (devices r) = Some d \<longrightarrow>
       forceConnectToDevice lc r q g s
         = (True, s\<lparr>alerts := alerts s @ [SystemConnectionRequired d]\<rparr>, g))
    \<and> (find (matchesQuery lc q) (devices r) = None \<longrightarrow>
       devices (fst (snd (forceConnectToDevice lc r q g s)))
           = devices (fst (scanForDevices g s)) @ [fst (newDevice q (snd (scanForDevices g s)))]
       \<and> alerts (fst (snd (forceConnectToDevice lc r q g s)))
           = alerts s @ [SystemConnectionRequired (fst (newDevice q (snd (scanForDevices g s))))]
       \<and> name (fst (newDevice q (snd (scanForDevices g s)))) = Some q
       \<and> isConnected (last (devices
            (connectToDevice_onPressOK (fst (newDevice q (snd (scanForDevices g s))))
               (fst (snd (forceConnectToDevice lc r q g s))))))
       \<and> name (last (devices
            (connectToDevice_onPressOK (fst (newDevice q (snd (scanForDevices g s))))
               (fst (snd (forceConnectToDevice lc r q g s)))))) = Some q)
    \<and> find (matchesQuery asciiLower (str ''Nonexistent-XYZ'')) (devices (fst (scanForDevices g s)))
        = None"
proof -
  assume q: "q \<noteq> []" and r: "devices r \<noteq> []"
  have c: "connectedDevice (fst (scanForDevices g s)) = connectedDevice s"
    by (simp add: scanForDevices_def split: prod.splits)
  have head: "fst (forceConnectToDevice lc r q g s) = True
    \<and> connectedDevice (fst (snd (forceConnectToDevice lc r q g s))) = connectedDevice s
    \<and> (\<exists>device. matchesQuery lc q device
          \<and> alerts (fst (snd (forceConnectToDevice lc r q g s)))
              = alerts s @ [SystemConnectionRequired device]
          \<and> connectedDevice (connectToDevice_onPressOK device (fst (snd (forceConnectToDevice lc r q g s))))
              = Some (device\<lparr>connected' := Some True\<rparr>))"
  proof (cases "find (matchesQuery lc q) (devices r)")
    case None
    note fc = forceConnect_synthesized [OF q r None, of g s]
    show ?thesis
      using matchesQuery_newDevice [OF q, of lc "snd (scanForDevices g s)"]
      by (auto simp: fc c connectToDevice_onPressOK_def)
  next
    case (Some d)
    show ?thesis
      using matchesQuery_found [OF Some]
      by (auto simp: forceConnect_found [OF Some] connectToDevice_onPressOK_def)
  qed
  have found: "forceConnectToDevice lc r q g s
         = (True, s\<lparr>alerts := alerts s @ [SystemConnectionRequired d]\<rparr>, g)"
    if "find (matchesQuery lc q) (devices r) = Some d"
    by (rule forceConnect_found [OF that])
  have placeholder: "devices (fst (snd (forceConnectToDevice lc r q g s)))
           = devices (fst (scanForDevices g s)) @ [fst (newDevice q (snd (scanForDevices g s)))]
       \<and> alerts (fst (snd (forceConnectToDevice lc r q g s)))
           = alerts s @ [SystemConnectionRequired (fst (newDevice q (snd (scanForDevices g s))))]
       \<and> name (fst (newDevice q (snd (scanForDevices g s)))) = Some q
       \<and> isConnected (last (devices
            (connectToDevice_onPressOK (fst (newDevice q (snd (scanForDevices g s))))
               (fst (snd (forceConnectToDevice lc r q g s))))))
       \<and> name (last (devices
            (connectToDevice_onPressOK (fst (newDevice q (snd (scanForDevices g s))))
               (fst (snd (forceConnectToDevice lc r q g s)))))) = Some q"
    if n: "find (matchesQuery lc q) (devices r) = None"
  proof -
    note fc = forceConnect_synthesized [OF q r n, of g s]
    show ?thesis
      by (simp add: fc onPressOK_devices isConnected_def name_newDevice)
  qed
  from head found placeholder scan_no_match [of g s] show ?thesis
    by (intro conjI impI) simp_all
qed

lemma scan_zero: "scanForDevices (constant_rng 0) s = (s\<lparr>devices := MOCK_DEVICES, isScanning := False\<rparr>, constant_rng 0)"
  by (simp add: scanForDevices_def randomDevices_def Math_random_constant)

lemma newDevice_zero:
  "newDevice q (constant_rng 0) =
     (\<lparr>name = Some q, id' = str ''00:00:00:00:00:00'', address = Some (str ''00:00:00:00:00:00''),
       connected' = Some False\<rparr>, constant_rng 0)"
  by (simp add: newDevice_def generateRandomId_zero)

lemma find_nonexistent:
  "find (matchesQuery asciiLower (str ''Nonexistent-XYZ'')) MOCK_DEVICES = None"
  by (simp add: matchesQuery_def MOCK_DEVICES_def asciiLower_def str_def)

text \<open>
  The theorem at the mounted state: "Nonexistent-XYZ" matches nothing and leads to a
  connected placeholder of that name; "wys" matches the second baseline speaker.
\<close>

theorem forceConnect_prompts_connection_witness:
  "str ''Nonexistent-XYZ'' \<noteq> [] \<and> devices mounted_state \<noteq> []
   \<and> find (matchesQuery asciiLower (str ''Nonexistent-XYZ'')) (devices mounted_state) = None
   \<and> fst (forceConnectToDevice asciiLower mounted_state (str ''Nonexistent-XYZ'') (constant_rng 0) mounted_state) = True
   \<and> alerts (fst (snd (forceConnectToDevice asciiLower mounted_state (str ''Nonexistent-XYZ'') (constant_rng 0) mounted_state)))
      = [SystemConnectionRequired (fst (newDevice (str ''Nonexistent-XYZ'') (constant_rng 0)))]
   \<and> map_option name (connectedDevice
        (connectToDevice_onPressOK (fst (newDevice (str ''Nonexistent-XYZ'') (constant_rng 0)))
          (fst (snd (forceConnectToDevice asciiLower mounted_state (str ''Nonexistent-XYZ'') (constant_rng 0) mounted_state)))))
      = Some (Some (str ''Nonexistent-XYZ''))
   \<and> name (last (devices
        (connectToDevice_onPressOK (fst (newDevice (str ''Nonexistent-XYZ'') (constant_rng 0)))
          (fst (snd (forceConnectToDevice asciiLower mounted_state (str ''Nonexistent-XYZ'') (constant_rng 0) mounted_state))))))
      = Some (str ''Nonexistent-XYZ'')
   \<and> find (matchesQuery asciiLower (str ''wys'')) (devices mounted_state) = Some (MOCK_DEVICES ! 1)
   \<and> alerts (fst (snd (forceConnectToDevice asciiLower mounted_state (str ''wys'') (constant_rng 0) mounted_state)))
      = [SystemConnectionRequired (MOCK_DEVICES ! 1)]
   \<and> connectedDevice (connectToDevice_onPressOK (MOCK_DEVICES ! 1)
        (fst (snd (forceConnectToDevice asciiLower mounted_state (str ''wys'') (constant_rng 0) mounted_state))))
      = Some ((MOCK_DEVICES ! 1)\<lparr>connected' := Some True\<rparr>)"
proof -
  have q: "str ''Nonexistent-XYZ'' \<noteq> []" and q2: "str ''wys'' \<noteq> []" by (simp_all add: str_def)
  have r: "devices mounted_state \<noteq> []" by (simp add: mounted_state_def MOCK_DEVICES_def)
  have n1: "find (matchesQuery asciiLower (str ''Nonexistent-XYZ'')) (devices mounted_state) = None"
    by (simp add: mounted_state_def find_nonexistent)
  have w: "find (matchesQuery asciiLower (str ''wys'')) (devices mounted_state) = Some (MOCK_DEVICES ! 1)"
    by (simp add: mounted_state_def matchesQuery_def MOCK_DEVICES_def asciiLower_def str_def)
  have a: "alerts mounted_state = []" by (simp add: mounted_state_def initial_state_def)
  show ?thesis
    using q r n1 w a
      forceConnect_prompts_connection [OF q r, of asciiLower "constant_rng 0" mounted_state "MOCK_DEVICES ! 1"]
      forceConnect_prompts_connection [OF q2 r, of asciiLower "constant_rng 0" mounted_state "MOCK_DEVICES ! 1"]
    by (simp add: scan_zero connectToDevice_onPressOK_def name_newDevice)
qed

text \<open>
  Claim C1 as stated fails. Called on the baseline registry with a query that matches
  nothing, \<open>forceConnectToDevice\<close> returns \<open>true\<close>, and yet no device is connected: the
  connected-device cell is empty and no entry of the registry is marked, as long as the
  user has not confirmed the dialog.
\<close>

theorem forceConnect_counterexample:
  "fst (forceConnectToDevice asciiLower mounted_state (str ''Nonexistent-XYZ'') (constant_rng 0) mounted_state) = True
   \<and> connectedDevice (fst (snd (forceConnectToDevice asciiLower mounted_state (str ''Nonexistent-XYZ'') (constant_rng 0) mounted_state))) = None
   \<and> filter isConnected (devices (fst (snd (forceConnectToDevice asciiLower mounted_state (str ''Nonexistent-XYZ'') (constant_rng 0) mounted_state)))) = []"
proof -
  have q: "str ''Nonexistent-XYZ'' \<noteq> []" by (simp add: str_def)
  have m: "forceConnectToDevice asciiLower mounted_state (str ''Nonexistent-XYZ'') (constant_rng 0) mounted_state
        = (True, mounted_state\<lparr>devices := MOCK_DEVICES @ [fst (newDevice (str ''Nonexistent-XYZ'') (constant_rng 0))],
              isScanning := False,
              alerts := [SystemConnectionRequired (fst (newDevice (str ''Nonexistent-XYZ'') (constant_rng 0)))]\<rparr>, constant_rng 0)"
    using q find_nonexistent
    by (simp add: forceConnectToDevice_def scan_zero newDevice_zero connectToDevice_def mounted_state_def
        initial_state_def MOCK_DEVICES_def)
  show ?thesis
    unfolding m
    by (simp add: initial_state_def mounted_state_def newDevice_zero MOCK_DEVICES_def isConnected_def)
qed

end
